theory Spec2Isabelle
  imports Complex_Main "HOL-Library.Word" "HOL-Library.Signed_Division"
begin

unbundle bit_operations_syntax

section \<open>Data model\<close>

text \<open>
  The program is the BLE exporter of \<^verbatim>\<open>device.go\<close>, \<^verbatim>\<open>handler.go\<close>
  (version 0.36 of \<^verbatim>\<open>main\<close> and the \<^verbatim>\<open>slog\<close> version of
  \<^verbatim>\<open>handlerPublisher\<close>) and \<^verbatim>\<open>reading.go\<close>.

  A Go \<^verbatim>\<open>error\<close> is modelled by its message, \<^verbatim>\<open>nil\<close> by \<open>None\<close>.
  Go's \<^verbatim>\<open>int\<close> (64 bits on the arm64 target of the Dockerfile) and
  \<^verbatim>\<open>time.Duration\<close> (an \<^verbatim>\<open>int64\<close> of nanoseconds) are modelled by
  \<open>int\<close> with the two's-complement wrap-around written out (\<open>wrap64\<close>).
  A \<^verbatim>\<open>float64\<close> is modelled by a real number: rounding to the nearest
  representable value is not part of the model.
\<close>

type_synonym error = string
type_synonym duration = int
type_synonym byte = "8 word"
type_synonym uuid = string

definition wrap64 :: "int \<Rightarrow> int" where
  "wrap64 x = signed_take_bit 63 x"

text \<open>\<^verbatim>\<open>x++\<close> and \<^verbatim>\<open>a * b\<close> on 64-bit signed integers.\<close>

definition incr :: "int \<Rightarrow> int" where
  "incr x = wrap64 (x + 1)"

definition mul64 :: "int \<Rightarrow> int \<Rightarrow> int" where
  "mul64 a b = wrap64 (a * b)"

text \<open>\<^verbatim>\<open>time.Second\<close>, in nanoseconds.\<close>

definition Second :: duration where
  "Second = 1000000000"

datatype level = LevelDebug | LevelInfo | LevelWarn | LevelError

text \<open>\<^verbatim>\<open>ble.Characteristic\<close>: the fields the program reads. \<^verbatim>\<open>CCCD\<close> is a
  pointer to a descriptor (\<open>None\<close> is \<^verbatim>\<open>nil\<close>).\<close>

record characteristic =
  UUID :: uuid
  Property :: int
  CCCD :: "nat option"
  Handle :: nat

text \<open>\<^verbatim>\<open>ble.CharNotify\<close> of the BLE library.\<close>

definition CharNotify :: int where
  "CharNotify = 0x10"

text \<open>A discovered \<^verbatim>\<open>ble.Profile\<close>: its characteristics in discovery order.
  \<^verbatim>\<open>p.Find(ble.NewCharacteristic(c))\<close> returns the first one with the UUID \<open>c\<close>,
  or \<^verbatim>\<open>nil\<close>.\<close>

type_synonym profile = "characteristic list"

definition Find :: "profile \<Rightarrow> uuid \<Rightarrow> characteristic option" where
  "Find p c = find (\<lambda>x. UUID x = c) p"

text \<open>\<^verbatim>\<open>Device\<close> (device.go:71). The \<^verbatim>\<open>Client\<close> field is the connection
  handle of the BLE library; its methods are the calls of the \<open>hardware\<close> below.\<close>

record device =
  Name :: string
  Addr :: string

text \<open>\<^verbatim>\<open>Config\<close> (config.go:11).\<close>

record config =
  Devices :: "device list"

text \<open>\<^verbatim>\<open>Reading\<close> (reading.go:10).\<close>

record reading =
  Temperature :: real
  Humidity :: real
  Voltage :: real

text \<open>
  What a task does to the outside, in program order: the radio lock \<^verbatim>\<open>bleMutex\<close>,
  the lock \<^verbatim>\<open>resetBLEDeviceMutex\<close>, \<^verbatim>\<open>time.Sleep\<close>, and every call into the
  BLE library with the error it returned.
\<close>

datatype event =
    EvLock
  | EvUnlock
  | EvLockTimeout
  | EvResetLock
  | EvResetUnlock
  | EvSleep duration
  | EvDial string "error option"
  | EvDiscoverProfile "error option"
  | EvWriteCharacteristic nat "byte list" "error option"
  | EvSubscribe nat "error option"
  | EvUnsubscribe nat "error option"
  | EvCancelConnection "error option"
  | EvStop nat
  | EvNewDevice "error option"

text \<open>
  The BLE library and the radio are outside the repository. Their answers are read from
  an oracle: every call takes the answer at the current value of \<open>clock\<close> and advances
  the clock, so any sequence of answers can be given. \<open>hwLockWithin\<close> says whether
  \<^verbatim>\<open>bleMutex\<close> is acquired within the 10 s of \<^verbatim>\<open>resetBLEDevice\<close>;
  \<open>hwNotifications\<close> are the payloads the sensor pushes while a subscription is held.
\<close>

record hardware =
  hwDial :: "nat \<Rightarrow> error option"
  hwDiscoverProfile :: "nat \<Rightarrow> error + profile"
  hwWriteCharacteristic :: "nat \<Rightarrow> error option"
  hwSubscribe :: "nat \<Rightarrow> error option"
  hwNotifications :: "nat \<Rightarrow> byte list list"
  hwUnsubscribe :: "nat \<Rightarrow> error option"
  hwCancelConnection :: "nat \<Rightarrow> error option"
  hwNewDevice :: "nat \<Rightarrow> error + nat"
  hwLockWithin :: "nat \<Rightarrow> bool"

text \<open>
  The package-level variables of the program (device.go:14-25, handler.go:47-68 and
  handler.go:242-263), and three fields that record what a run does: \<open>clock\<close> (the
  number of oracle answers taken), \<open>trace\<close> (the events) and \<open>logs\<close> (the messages
  logged, without their attributes).
\<close>

record world =
  deviceResetNeeded :: int
  errorsPerDevice :: "string \<rightharpoonup> int"
  bleDevice :: "nat option"
  globalConfig :: "config option"
  measurementInterval :: int
  temperature :: "string \<rightharpoonup> real"
  humidity :: "string \<rightharpoonup> real"
  voltage :: "string \<rightharpoonup> real"
  battery :: "string \<rightharpoonup> real"
  deviceErrorsCounter :: "string \<rightharpoonup> nat"
  clock :: nat
  trace :: "event list"
  logs :: "(level \<times> string) list"

definition slog :: "level \<Rightarrow> string \<Rightarrow> world \<Rightarrow> world" where
  "slog lvl msg w = w\<lparr>logs := logs w @ [(lvl, msg)]\<rparr>"

definition emit :: "event \<Rightarrow> world \<Rightarrow> world" where
  "emit ev w = w\<lparr>trace := trace w @ [ev]\<rparr>"

definition timeSleep :: "duration \<Rightarrow> world \<Rightarrow> world" where
  "timeSleep d w = emit (EvSleep d) w"

section \<open>reading.go\<close>

text \<open>\<^verbatim>\<open>%d\<close> of a length.\<close>

fun decimal :: "nat \<Rightarrow> string" where
  "decimal n =
     (if n < 10 then [''0123456789'' ! n]
      else decimal (n div 10) @ [''0123456789'' ! (n mod 10)])"

text \<open>\<^verbatim>\<open>binary.LittleEndian.Uint16\<close> of a two-byte slice.\<close>

definition Uint16 :: "byte \<Rightarrow> byte \<Rightarrow> 16 word" where
  "Uint16 b0 b1 = (ucast b0 OR push_bit 8 (ucast b1))"

text \<open>\<^verbatim>\<open>Unmarshall\<close> (reading.go:22-39). On a wrong length it logs and returns the
  zero \<^verbatim>\<open>Reading\<close> with an error (the line of \<^verbatim>\<open>log.Printf\<close> is
  recorded at level \<open>LevelInfo\<close>).\<close>

definition Unmarshall :: "byte list \<Rightarrow> world \<Rightarrow> (reading \<times> error option) \<times> world" where
  "Unmarshall req w =
     (let l = length req in
      if l \<noteq> 5 then
        ((\<lparr>Temperature = 0, Humidity = 0, Voltage = 0\<rparr>,
          Some (''Expecting 5 bytes got '' @ decimal l)),
         slog LevelInfo (''[X] Expecting 5 bytes; got '' @ decimal l) w)
      else
        let t = real_of_int (uint (Uint16 (req ! 0) (req ! 1))) / 100;
            h = real_of_int (uint (req ! 2));
            v = real_of_int (uint (Uint16 (req ! 3) (req ! 4))) / 1000
        in ((\<lparr>Temperature = t, Humidity = h, Voltage = v\<rparr>, None), w))"

section \<open>handler.go: the notification handler\<close>

text \<open>\<^verbatim>\<open>math.Round\<close>: to the nearest integer, halves away from zero.\<close>

definition mathRound :: "real \<Rightarrow> real" where
  "mathRound x = (if x < 0 then - real_of_int \<lfloor>- x + 1 / 2\<rfloor> else real_of_int \<lfloor>x + 1 / 2\<rfloor>)"

text \<open>The expression of handler.go:93.\<close>

definition batteryPercent :: "real \<Rightarrow> real" where
  "batteryPercent v = mathRound (min ((v - 2.1) * 100) 100 * 100) / 100"

text \<open>The function \<^verbatim>\<open>handlerPublisher(name)\<close> returns (handler.go:70-100).\<close>

definition handlerPublisher :: "string \<Rightarrow> byte list \<Rightarrow> world \<Rightarrow> world" where
  "handlerPublisher name req w =
     (let ((r, err), w1) = Unmarshall req w in
      if err \<noteq> None then slog LevelError ''Unable to unmarshal data'' w1
      else
        let w2 = slog LevelInfo ''Received sensor data'' w1;
            w3 = w2\<lparr>temperature := (temperature w2)(name \<mapsto> Temperature r)\<rparr>;
            w4 = w3\<lparr>humidity := (humidity w3)(name \<mapsto> Humidity r)\<rparr>;
            w5 = w4\<lparr>voltage := (voltage w4)(name \<mapsto> Voltage r)\<rparr>;
            w6 = w5\<lparr>battery := (battery w5)(name \<mapsto> batteryPercent (Voltage r))\<rparr>
        in slog LevelInfo ''Updated metrics'' w6)"

section \<open>device.go: the reset flag and the failure tally\<close>

text \<open>\<^verbatim>\<open>RequestBLEDeviceReset\<close>, \<^verbatim>\<open>IsBLEDeviceResetRequested\<close> and
  \<^verbatim>\<open>ClearBLEDeviceResetRequest\<close> (device.go:28-41).\<close>

definition RequestBLEDeviceReset :: "world \<Rightarrow> world" where
  "RequestBLEDeviceReset w =
     (slog LevelWarn ''Explicitly requesting BLE device reset'' w)\<lparr>deviceResetNeeded := 1\<rparr>"

definition IsBLEDeviceResetRequested :: "world \<Rightarrow> bool" where
  "IsBLEDeviceResetRequested w = (deviceResetNeeded w = 1)"

definition ClearBLEDeviceResetRequest :: "world \<Rightarrow> world" where
  "ClearBLEDeviceResetRequest w = w\<lparr>deviceResetNeeded := 0\<rparr>"

text \<open>Reading \<^verbatim>\<open>errorsPerDevice[name]\<close>: a key that is not in a Go map reads as 0.\<close>

definition errorCount :: "world \<Rightarrow> string \<Rightarrow> int" where
  "errorCount w name = (case errorsPerDevice w name of None \<Rightarrow> 0 | Some c \<Rightarrow> c)"

text \<open>\<^verbatim>\<open>IncrementErrors\<close> (device.go:44-60).\<close>

definition IncrementErrors :: "string \<Rightarrow> world \<Rightarrow> int \<times> world" where
  "IncrementErrors deviceName w =
     (let w1 = w\<lparr>errorsPerDevice := (errorsPerDevice w)(deviceName \<mapsto> incr (errorCount w deviceName))\<rparr>;
          current = errorCount w1 deviceName;
          w2 = (if current \<ge> 3 then
                  RequestBLEDeviceReset
                    (slog LevelWarn ''Device has accumulated too many errors, requesting reset'' w1)
                else w1)
      in (current, w2))"

text \<open>\<^verbatim>\<open>ResetErrors\<close> (device.go:63-68).\<close>

definition ResetErrors :: "string \<Rightarrow> world \<Rightarrow> world" where
  "ResetErrors deviceName w = w\<lparr>errorsPerDevice := (errorsPerDevice w)(deviceName \<mapsto> 0)\<rparr>"

section \<open>device.go: calls into the BLE library\<close>

text \<open>Each call reads the oracle at the clock, advances the clock and records the event.\<close>

definition errOf :: "error + 'a \<Rightarrow> error option" where
  "errOf r = (case r of Inl e \<Rightarrow> Some e | Inr _ \<Rightarrow> None)"

definition tick :: "world \<Rightarrow> world" where
  "tick w = w\<lparr>clock := clock w + 1\<rparr>"

definition hostDial :: "hardware \<Rightarrow> string \<Rightarrow> world \<Rightarrow> error option \<times> world" where
  "hostDial hw addr w = (let r = hwDial hw (clock w) in (r, emit (EvDial addr r) (tick w)))"

definition clientDiscoverProfile :: "hardware \<Rightarrow> world \<Rightarrow> (error + profile) \<times> world" where
  "clientDiscoverProfile hw w =
     (let r = hwDiscoverProfile hw (clock w) in (r, emit (EvDiscoverProfile (errOf r)) (tick w)))"

definition clientWriteCharacteristic ::
  "hardware \<Rightarrow> characteristic \<Rightarrow> byte list \<Rightarrow> world \<Rightarrow> error option \<times> world" where
  "clientWriteCharacteristic hw c b w =
     (let r = hwWriteCharacteristic hw (clock w)
      in (r, emit (EvWriteCharacteristic (Handle c) b r) (tick w)))"

definition clientSubscribe :: "hardware \<Rightarrow> characteristic \<Rightarrow> world \<Rightarrow> error option \<times> world" where
  "clientSubscribe hw c w =
     (let r = hwSubscribe hw (clock w) in (r, emit (EvSubscribe (Handle c) r) (tick w)))"

definition clientUnsubscribe :: "hardware \<Rightarrow> characteristic \<Rightarrow> world \<Rightarrow> error option \<times> world" where
  "clientUnsubscribe hw c w =
     (let r = hwUnsubscribe hw (clock w) in (r, emit (EvUnsubscribe (Handle c) r) (tick w)))"

definition clientCancelConnection :: "hardware \<Rightarrow> world \<Rightarrow> error option \<times> world" where
  "clientCancelConnection hw w =
     (let r = hwCancelConnection hw (clock w) in (r, emit (EvCancelConnection r) (tick w)))"

definition linuxNewDevice :: "hardware \<Rightarrow> world \<Rightarrow> (error + nat) \<times> world" where
  "linuxNewDevice hw w =
     (let r = hwNewDevice hw (clock w) in (r, emit (EvNewDevice (errOf r)) (tick w)))"

text \<open>The notifications that arrive while the subscription is held: the BLE library calls
  the handler given to \<^verbatim>\<open>Subscribe\<close> (device.go:309) once for each payload.\<close>

definition deliverNotifications :: "hardware \<Rightarrow> string \<Rightarrow> world \<Rightarrow> world" where
  "deliverNotifications hw name w =
     foldl (\<lambda>w' req. handlerPublisher name req w') (tick w) (hwNotifications hw (clock w))"

text \<open>\<^verbatim>\<open>characteristix\<close> (device.go:15-18); a key that is not in the map reads as the
  \<^verbatim>\<open>nil\<close> UUID.\<close>

definition characteristix :: "nat \<Rightarrow> uuid" where
  "characteristix k =
     (if k = 36 then ''ebe0ccc1-7a0a-4b0c-8a1a-6ff2997da3a6''
      else if k = 38 then ''00002902-0000-1000-8000-00805f9b34fb''
      else [])"

section \<open>device.go: connecting\<close>

text \<open>
  The loop of \<^verbatim>\<open>Connect\<close> (device.go:82-105), from the state at the loop head:
  \<open>retry\<close>, \<open>backoff\<close> and the named result \<open>err\<close>. \<open>retry < maxRetries\<close> holds
  where \<open>retry\<close> is incremented, so that increment cannot overflow.
\<close>

function Connect_loop ::
  "hardware \<Rightarrow> device \<Rightarrow> int \<Rightarrow> int \<Rightarrow> duration \<Rightarrow> error option \<Rightarrow> world \<Rightarrow> error option \<times> world" where
  "Connect_loop hw d maxRetries retry backoff err w =
     (if retry < maxRetries then
        let w1 = (if retry > 0 then timeSleep backoff (slog LevelInfo ''Retrying connection'' w) else w);
            backoff1 = (if retry > 0 then mul64 backoff 3 else backoff);
            (err1, w2) = hostDial hw (Addr d) w1
        in if err1 = None then (None, w2)
           else Connect_loop hw d maxRetries (retry + 1) backoff1 err1
                  (slog LevelInfo ''Connection error'' w2)
      else (err, w))"
  by pat_completeness auto
termination
  by (relation "measure (\<lambda>(hw, d, maxRetries, retry, backoff, err, w). nat (maxRetries - retry))") auto

declare Connect_loop.simps [simp del]

text \<open>\<^verbatim>\<open>Connect\<close> (device.go:78-108), called with the shared \<^verbatim>\<open>bleDevice\<close>.\<close>

definition Connect :: "hardware \<Rightarrow> device \<Rightarrow> world \<Rightarrow> error option \<times> world" where
  "Connect hw d w = Connect_loop hw d 3 0 (1 * Second) None w"

text \<open>\<^verbatim>\<open>Disconnect\<close> (device.go:111-113).\<close>

definition Disconnect :: "hardware \<Rightarrow> device \<Rightarrow> world \<Rightarrow> error option \<times> world" where
  "Disconnect hw d w = clientCancelConnection hw w"

text \<open>\<^verbatim>\<open>connectToDevice\<close> (device.go:116-129).\<close>

definition connectToDevice :: "hardware \<Rightarrow> device \<Rightarrow> world \<Rightarrow> bool \<times> world" where
  "connectToDevice hw d w =
     (let w0 = slog LevelInfo ''Connecting to device'' w;
          (err, w1) = Connect hw d w0
      in if err \<noteq> None then
           let w2 = slog LevelError ''Failed to connect to device'' w1;
               n = (case deviceErrorsCounter w2 (Name d) of None \<Rightarrow> 0 | Some k \<Rightarrow> k)
           in (False, w2\<lparr>deviceErrorsCounter := (deviceErrorsCounter w2)(Name d \<mapsto> n + 1)\<rparr>)
         else (True, w1))"

text \<open>\<^verbatim>\<open>calculateWaitTime\<close> (device.go:132-144). Go's integer division truncates
  towards zero (\<open>sdiv\<close>).\<close>

definition calculateWaitTime :: "bool \<Rightarrow> world \<Rightarrow> duration" where
  "calculateWaitTime success w =
     (if \<not> success then
        let waitTime = mul64 (measurementInterval w sdiv 2) Second
        in if waitTime < 10 * Second then 10 * Second else waitTime
      else mul64 (measurementInterval w) Second)"

section \<open>device.go: the retry wrapper and the operations built on it\<close>

text \<open>
  The loop of \<^verbatim>\<open>performWithRetry\<close> (device.go:277-297), from the state at the loop
  head. The closures \<^verbatim>\<open>action\<close> and \<^verbatim>\<open>onError\<close> of the callers assign to
  local variables of the caller; these variables are the component \<open>'l\<close> of the state.
  \<^verbatim>\<open>onError\<close> may be \<^verbatim>\<open>nil\<close> (\<open>None\<close>).
\<close>

function performWithRetry_loop ::
  "device \<Rightarrow> string \<Rightarrow> int \<Rightarrow> ('l \<times> world \<Rightarrow> error option \<times> 'l \<times> world) \<Rightarrow>
   (error \<Rightarrow> 'l \<times> world \<Rightarrow> 'l \<times> world) option \<Rightarrow> int \<Rightarrow> duration \<Rightarrow> 'l \<times> world \<Rightarrow>
   bool \<times> 'l \<times> world" where
  "performWithRetry_loop d operation maxRetries action onError retry backoff s =
     (if retry < maxRetries then
        let s1 = (if retry > 0 then
                    apsnd (\<lambda>w. timeSleep backoff (slog LevelInfo ''Retrying operation'' w)) s
                  else s);
            backoff1 = (if retry > 0 then mul64 backoff 3 else backoff);
            (err, s2) = action s1
        in case err of
             None \<Rightarrow> (True, s2)
           | Some e \<Rightarrow>
               performWithRetry_loop d operation maxRetries action onError (retry + 1) backoff1
                 (case onError of None \<Rightarrow> s2 | Some h \<Rightarrow> h e s2)
      else (False, s))"
  by pat_completeness auto
termination
  by (relation "measure (\<lambda>(d, operation, maxRetries, action, onError, retry, backoff, s).
        nat (maxRetries - retry))") auto

declare performWithRetry_loop.simps [simp del]

text \<open>\<^verbatim>\<open>performWithRetry\<close> (device.go:272-300).\<close>

definition performWithRetry ::
  "device \<Rightarrow> string \<Rightarrow> int \<Rightarrow> ('l \<times> world \<Rightarrow> error option \<times> 'l \<times> world) \<Rightarrow>
   (error \<Rightarrow> 'l \<times> world \<Rightarrow> 'l \<times> world) option \<Rightarrow> 'l \<times> world \<Rightarrow> bool \<times> 'l \<times> world" where
  "performWithRetry d operation maxRetries action onError s =
     performWithRetry_loop d operation maxRetries action onError 0 (1 * Second) s"

text \<open>The bookkeeping all three \<^verbatim>\<open>onError\<close> closures share: log, count the error
  locally, \<^verbatim>\<open>IncrementErrors(d.Name)\<close>, log (device.go:312-327, 350-365, 389-402).\<close>

definition trackError :: "device \<Rightarrow> string \<Rightarrow> int \<Rightarrow> world \<Rightarrow> int \<times> world" where
  "trackError d msg localErrors w =
     (let w1 = slog LevelError msg w;
          localErrors1 = incr localErrors;
          (totalErrors, w2) = IncrementErrors (Name d) w1
      in (localErrors1, slog LevelInfo ''Tracked error'' w2))"

text \<open>\<^verbatim>\<open>subscribeToCharacteristic\<close> (device.go:303-338); the local state of the
  closures is \<^verbatim>\<open>localErrors\<close>.\<close>

definition subscribeToCharacteristic ::
  "hardware \<Rightarrow> device \<Rightarrow> characteristic \<Rightarrow> int \<Rightarrow> world \<Rightarrow> (bool \<times> int) \<times> world" where
  "subscribeToCharacteristic hw d c maxRetries w =
     (let w0 = slog LevelInfo ''Subscribing to characteristic'' w;
          subscribeAction = (\<lambda>(localErrors, w'). case clientSubscribe hw c w' of
                               (err, w'') \<Rightarrow> (err, localErrors, w''));
          onError = (\<lambda>err (localErrors, w'). trackError d ''Subscribe error'' localErrors w');
          (success, localErrors, w1) =
            performWithRetry d ''subscription'' maxRetries subscribeAction (Some onError) (0, w0);
          w2 = (if \<not> success then slog LevelError ''Failed to subscribe after multiple attempts'' w1
                else w1)
      in ((success, localErrors), w2))"

text \<open>\<^verbatim>\<open>unsubscribeFromCharacteristic\<close> (device.go:341-374).\<close>

definition unsubscribeFromCharacteristic ::
  "hardware \<Rightarrow> device \<Rightarrow> characteristic \<Rightarrow> int \<Rightarrow> world \<Rightarrow> int \<times> world" where
  "unsubscribeFromCharacteristic hw d c maxRetries w =
     (let w0 = slog LevelInfo ''Unsubscribing from characteristic'' w;
          unsubscribeAction = (\<lambda>(localErrors, w'). case clientUnsubscribe hw c w' of
                                 (err, w'') \<Rightarrow> (err, localErrors, w''));
          onError = (\<lambda>err (localErrors, w'). trackError d ''Unsubscribe error'' localErrors w');
          (success, localErrors, w1) =
            performWithRetry d ''unsubscription'' maxRetries unsubscribeAction (Some onError) (0, w0);
          w2 = (if \<not> success then slog LevelWarn ''Failed to unsubscribe cleanly, continuing anyway'' w1
                else w1)
      in (localErrors, w2))"

text \<open>\<^verbatim>\<open>discoverDeviceProfile\<close> (device.go:377-419); the local state of the closures
  is \<^verbatim>\<open>p\<close> and \<^verbatim>\<open>localErrors\<close>.\<close>

definition discoverDeviceProfile ::
  "hardware \<Rightarrow> device \<Rightarrow> int \<Rightarrow> world \<Rightarrow> (profile option \<times> int) \<times> world" where
  "discoverDeviceProfile hw d maxRetries w =
     (let w0 = slog LevelInfo ''Discovering device profile'' w;
          discoverAction = (\<lambda>((p, localErrors), w'). case clientDiscoverProfile hw w' of
                              (Inl e, w'') \<Rightarrow> (Some e, (None, localErrors), w'')
                            | (Inr p', w'') \<Rightarrow> (None, (Some p', localErrors), w''));
          onError = (\<lambda>err ((p, localErrors), w').
                       case trackError d ''Discover profile error'' localErrors w' of
                         (localErrors1, w'') \<Rightarrow> ((p, localErrors1), w''));
          (success, (p, localErrors), w1) =
            performWithRetry d ''profile discovery'' maxRetries discoverAction (Some onError)
              ((None, 0), w0)
      in if success then
           ((p, localErrors), (if localErrors = 0 then ResetErrors (Name d) w1 else w1))
         else
           ((None, localErrors),
            slog LevelError ''Failed to discover profile after multiple attempts'' w1))"

text \<open>\<^verbatim>\<open>readSensorData\<close> (device.go:421-460). Its local \<^verbatim>\<open>errors\<close> is summed up
  and never read, and is left out.\<close>

definition readSensorData :: "hardware \<Rightarrow> device \<Rightarrow> uuid \<Rightarrow> world \<Rightarrow> bool \<times> world" where
  "readSensorData hw d c w =
     (let w0 = slog LevelInfo ''Reading sensor data'' w;
          maxRetries = 3;
          ((profile, errors), w1) = discoverDeviceProfile hw d maxRetries w0
      in case profile of
           None \<Rightarrow> (False, w1)
         | Some p \<Rightarrow>
             (case Find p c of
                Some characteristic \<Rightarrow>
                  if (Property characteristic AND CharNotify) \<noteq> 0 \<and> CCCD characteristic \<noteq> None then
                    let w2 = slog LevelInfo ''Registering Temperature|Humidity Handler'' w1;
                        ((subscribed, subErrors), w3) =
                          subscribeToCharacteristic hw d characteristic maxRetries w2
                    in if \<not> subscribed then (False, w3)
                       else
                         let w4 = deliverNotifications hw (Name d) (timeSleep (6 * Second) w3);
                             (unsubErrors, w5) =
                               unsubscribeFromCharacteristic hw d characteristic maxRetries w4
                         in (True, w5)
                  else (False, w1)
              | None \<Rightarrow> (False, w1)))"

text \<open>\<^verbatim>\<open>pub\<close> (device.go:256-269).\<close>

definition pub :: "hardware \<Rightarrow> device \<Rightarrow> uuid \<Rightarrow> byte list \<Rightarrow> world \<Rightarrow> world" where
  "pub hw d c b w =
     (let w0 = slog LevelInfo ''Publishing'' w;
          (r, w1) = clientDiscoverProfile hw w0
      in case r of
           Inr p \<Rightarrow>
             (case Find p c of
                Some u \<Rightarrow>
                  (let (err, w2) = clientWriteCharacteristic hw u b w1
                   in if err \<noteq> None then slog LevelError ''Error writing characteristic'' w2 else w2)
              | None \<Rightarrow> w1)
         | Inl e \<Rightarrow> w1)"

section \<open>device.go: one poll cycle\<close>

text \<open>
  \<^verbatim>\<open>handleDeviceOperation\<close> (device.go:147-170). Its results are unnamed, so the
  statement \<^verbatim>\<open>return dataSuccess, disconnectErr\<close> fixes both results before the
  deferred function runs: the second result is the value \<^verbatim>\<open>disconnectErr\<close> has at the
  \<^verbatim>\<open>return\<close>, which is \<^verbatim>\<open>nil\<close>. The deferred function then disconnects and
  assigns the local variable, which nothing reads afterwards.
\<close>

definition handleDeviceOperation :: "hardware \<Rightarrow> device \<Rightarrow> world \<Rightarrow> (bool \<times> error option) \<times> world" where
  "handleDeviceOperation hw d w =
     (let disconnectErr = None;
          w1 = pub hw d (characteristix 38) [0x01, 0x00] (slog LevelInfo ''Publishing'' w);
          (dataSuccess, w2) = readSensorData hw d (characteristix 36) (slog LevelInfo ''Subscribing'' w1);
          results = (dataSuccess, disconnectErr);
          (err, w3) = Disconnect hw d (slog LevelInfo ''Disconnecting to save battery'' w2);
          (disconnectErr', w4) =
            (if err \<noteq> None then (err, slog LevelError ''Error disconnecting'' w3)
             else (disconnectErr, w3))
      in (results, w4))"

text \<open>\<^verbatim>\<open>checkForResetNeeds\<close> (device.go:173-184).\<close>

definition checkForResetNeeds :: "device \<Rightarrow> int \<Rightarrow> bool \<Rightarrow> world \<Rightarrow> bool \<times> world" where
  "checkForResetNeeds d consecutiveFailures criticalError w =
     (if consecutiveFailures \<ge> 3 \<or> criticalError then
        (True, RequestBLEDeviceReset
                 (slog LevelWarn ''Requesting BLE device reset due to persistent issues'' w))
      else (False, w))"

text \<open>
  The body of the loop of \<^verbatim>\<open>RegisterHandler\<close> in two parts. The first is
  device.go:194-218 (acquire the lock, steps 1 and 2); it returns \<^verbatim>\<open>success\<close>,
  \<^verbatim>\<open>criticalError\<close> and \<^verbatim>\<open>consecutiveFailures\<close> as they are at line 219.
\<close>

definition pollOperate :: "hardware \<Rightarrow> device \<Rightarrow> int \<Rightarrow> world \<Rightarrow> (bool \<times> bool \<times> int) \<times> world" where
  "pollOperate hw d consecutiveFailures w =
     (let w0 = slog LevelInfo ''Acquired BLE device access''
                 (emit EvLock (slog LevelInfo ''Waiting for BLE device access'' w));
          (connected, w1) = connectToDevice hw d w0
      in if \<not> connected then ((False, False, incr consecutiveFailures), w1)
         else
           let ((dataSuccess, err), w2) = handleDeviceOperation hw d w1
           in if dataSuccess then ((True, False, 0), w2)
              else ((False, err \<noteq> None, incr consecutiveFailures), w2))"

text \<open>
  The flag \<^verbatim>\<open>deviceResetNeeded\<close> is shared with the reset coordinator, and the poller
  reads it again at device.go:228, after \<^verbatim>\<open>bleMutex.Unlock()\<close>. The coordinator clears
  it in \<^verbatim>\<open>resetBLEDevice\<close>: without \<^verbatim>\<open>bleMutex\<close> in the branch \<^verbatim>\<open>timeout\<close>
  (handler.go:307), and in the branch \<^verbatim>\<open>done\<close> once the poller has released the mutex
  (handler.go:338). Between the request of step 3 and the re-read the coordinator either
  leaves the flag alone or clears it; after the unlock the poller reads nothing else that
  another task writes.
\<close>

datatype coordinator = Idle | Clears

definition interfere :: "coordinator \<Rightarrow> world \<Rightarrow> world" where
  "interfere c w = (case c of Idle \<Rightarrow> w | Clears \<Rightarrow> ClearBLEDeviceResetRequest w)"

text \<open>The whole body (device.go:193-252): one poll cycle, with what the coordinator does
  to the flag before the re-read of device.go:228. It returns
  \<^verbatim>\<open>consecutiveFailures\<close> as the next iteration finds it.\<close>

definition pollCycle ::
  "hardware \<Rightarrow> device \<Rightarrow> int \<Rightarrow> coordinator \<Rightarrow> world \<Rightarrow> int \<times> world" where
  "pollCycle hw d consecutiveFailures c w =
     (let maxConsecutiveFailures = 5;
          ((success, criticalError, consecutiveFailures1), w1) = pollOperate hw d consecutiveFailures w;
          (needsReset, w2) = checkForResetNeeds d consecutiveFailures1 criticalError w1;
          w3 = interfere c (emit EvUnlock (slog LevelInfo ''Releasing BLE device access'' w2));
          w4 = (if needsReset \<and> IsBLEDeviceResetRequested w3 then
                  timeSleep (10 * Second) (slog LevelInfo ''Waiting for BLE device reset'' w3)
                else w3);
          (consecutiveFailures2, w5) =
            (if consecutiveFailures1 \<ge> maxConsecutiveFailures then
               (maxConsecutiveFailures sdiv 2, slog LevelWarn ''Multiple consecutive failures'' w4)
             else (consecutiveFailures1, w4));
          waitTimeBetweenAttempts = calculateWaitTime success w5
      in (consecutiveFailures2,
          timeSleep waitTimeBetweenAttempts (slog LevelInfo ''Waiting before next reading'' w5)))"

text \<open>\<^verbatim>\<open>RegisterHandler\<close> (device.go:187-254) never returns; \<open>RegisterHandler cs\<close> is
  its state after \<open>length cs\<close> iterations of the loop, where \<open>cs\<close> lists what the
  coordinator does in each of them.\<close>

fun RegisterHandler_loop ::
  "coordinator list \<Rightarrow> hardware \<Rightarrow> device \<Rightarrow> int \<Rightarrow> world \<Rightarrow> int \<times> world" where
  "RegisterHandler_loop [] hw d consecutiveFailures w = (consecutiveFailures, w)"
| "RegisterHandler_loop (c # cs) hw d consecutiveFailures w =
     (case pollCycle hw d consecutiveFailures c w of
        (consecutiveFailures', w') \<Rightarrow> RegisterHandler_loop cs hw d consecutiveFailures' w')"

definition RegisterHandler :: "coordinator list \<Rightarrow> hardware \<Rightarrow> device \<Rightarrow> world \<Rightarrow> int \<times> world" where
  "RegisterHandler cs hw d w = RegisterHandler_loop cs hw d 0 w"

section \<open>handler.go: the reset of the radio\<close>

text \<open>The loop over \<^verbatim>\<open>globalConfig.Devices\<close> (handler.go:313-316).\<close>

definition resetAllErrors :: "device list \<Rightarrow> world \<Rightarrow> world" where
  "resetAllErrors ds w =
     foldl (\<lambda>w' dev. slog LevelInfo ''Reset error counter during device reset''
                        (ResetErrors (Name dev) w')) w ds"

text \<open>Stopping the existing handle (handler.go:292-296 and 322-326).\<close>

definition stopExisting :: "string \<Rightarrow> world \<Rightarrow> world" where
  "stopExisting msg w =
     (case bleDevice w of
        Some h \<Rightarrow> (emit (EvStop h) (slog LevelInfo msg w))\<lparr>bleDevice := None\<rparr>
      | None \<Rightarrow> w)"

text \<open>
  \<^verbatim>\<open>resetBLEDevice\<close> (handler.go:266-340). The \<^verbatim>\<open>select\<close> takes the branch
  \<^verbatim>\<open>done\<close> when the helper goroutine gets \<^verbatim>\<open>bleMutex\<close> within 10 s, and the
  branch \<^verbatim>\<open>timeout\<close> otherwise. \<^verbatim>\<open>linux.NewDevice\<close> returns a \<^verbatim>\<open>nil\<close> handle
  with an error. The deferred unlocks run last.
\<close>

definition resetBLEDevice :: "hardware \<Rightarrow> world \<Rightarrow> error option \<times> world" where
  "resetBLEDevice hw w =
     (let w0 = slog LevelWarn ''Starting BLE device reset process'' (emit EvResetLock w);
          acquired = hwLockWithin hw (clock w0);
          w1 = tick w0
      in if acquired then
           let w2 = slog LevelInfo ''Acquired BLE mutex for device reset'' (emit EvLock w1);
               w3 = (case globalConfig w2 of
                       Some cfg \<Rightarrow> resetAllErrors (Devices cfg) w2
                     | None \<Rightarrow> slog LevelWarn
                         ''No global config available, skipping device error counter reset'' w2);
               w4 = stopExisting ''Stopping existing BLE device'' w3;
               (r, w5) = linuxNewDevice hw (slog LevelInfo ''Creating new BLE device'' w4)
           in case r of
                Inl err \<Rightarrow>
                  (Some err,
                   emit EvResetUnlock (emit EvUnlock
                     (slog LevelError ''Failed to create new BLE device'' (w5\<lparr>bleDevice := None\<rparr>))))
              | Inr h \<Rightarrow>
                  (None,
                   emit EvResetUnlock (emit EvUnlock
                     (ClearBLEDeviceResetRequest
                        (slog LevelInfo ''BLE device reset completed successfully''
                           (w5\<lparr>bleDevice := Some h\<rparr>)))))
         else
           let w2 = slog LevelError
                      ''Timeout waiting for BLE mutex during device reset, forcing reset''
                      (emit EvLockTimeout w1);
               w3 = stopExisting ''Force stopping existing BLE device'' w2;
               (r, w4) = linuxNewDevice hw (slog LevelInfo ''Creating new BLE device after timeout'' w3)
           in case r of
                Inl err \<Rightarrow>
                  (Some err,
                   emit EvResetUnlock
                     (slog LevelError ''Failed to create new BLE device after timeout''
                        (w4\<lparr>bleDevice := None\<rparr>)))
              | Inr h \<Rightarrow>
                  (None,
                   emit EvResetUnlock
                     (ClearBLEDeviceResetRequest
                        (slog LevelInfo ''BLE device reset completed after timeout''
                           (w4\<lparr>bleDevice := Some h\<rparr>)))))"

text \<open>The body of the loop of the monitor goroutine (handler.go:378-391).\<close>

definition monitorStep :: "hardware \<Rightarrow> world \<Rightarrow> world" where
  "monitorStep hw w =
     (let checkInterval = 5 * Second;
          w1 = (if IsBLEDeviceResetRequested w then
                  let (err, w') = resetBLEDevice hw
                                    (slog LevelInfo ''BLE device reset requested, attempting reset'' w)
                  in if err \<noteq> None then
                       timeSleep (10 * Second) (slog LevelError ''BLE device reset failed'' w')
                     else slog LevelInfo ''BLE device reset successful'' w'
                else w)
      in timeSleep checkInterval w1)"

text \<open>The variables as \<^verbatim>\<open>main\<close> leaves them when it starts the tasks
  (handler.go:342-372): the configuration \<open>cfg\<close>, the flag \<^verbatim>\<open>measurement-interval\<close>
  and the first radio handle \<open>h\<close>.\<close>

definition startWorld :: "config \<Rightarrow> int \<Rightarrow> nat \<Rightarrow> world" where
  "startWorld cfg interval h =
     \<lparr>deviceResetNeeded = 0, errorsPerDevice = Map.empty, bleDevice = Some h,
      globalConfig = Some cfg, measurementInterval = interval,
      temperature = Map.empty, humidity = Map.empty, voltage = Map.empty, battery = Map.empty,
      deviceErrorsCounter = Map.empty, clock = 0, trace = [], logs = []\<rparr>"

section \<open>Vocabulary of the properties\<close>

subsection \<open>The parts of the retry loops\<close>

text \<open>What one iteration of the loop of \<^verbatim>\<open>performWithRetry\<close> does before the call
  (device.go:278-286), the backoff it leaves for the next iteration, and what it does after
  a failed call (device.go:294-296).\<close>

definition beforeAttempt :: "int \<Rightarrow> duration \<Rightarrow> 'l \<times> world \<Rightarrow> 'l \<times> world" where
  "beforeAttempt retry backoff s =
     (if retry > 0 then apsnd (\<lambda>w. timeSleep backoff (slog LevelInfo ''Retrying operation'' w)) s
      else s)"

definition nextBackoff :: "int \<Rightarrow> duration \<Rightarrow> duration" where
  "nextBackoff retry backoff = (if retry > 0 then mul64 backoff 3 else backoff)"

definition afterFailure ::
  "(error \<Rightarrow> 'l \<times> world \<Rightarrow> 'l \<times> world) option \<Rightarrow> error \<Rightarrow> 'l \<times> world \<Rightarrow> 'l \<times> world" where
  "afterFailure onError e s = (case onError of None \<Rightarrow> s | Some h \<Rightarrow> h e s)"

text \<open>The same for the loop of \<^verbatim>\<open>Connect\<close> (device.go:83-90).\<close>

definition beforeDial :: "int \<Rightarrow> duration \<Rightarrow> world \<Rightarrow> world" where
  "beforeDial retry backoff w =
     (if retry > 0 then timeSleep backoff (slog LevelInfo ''Retrying connection'' w) else w)"

text \<open>The world of a poller that has taken the radio lock (device.go:194-196).\<close>

definition acquired :: "world \<Rightarrow> world" where
  "acquired w = slog LevelInfo ''Acquired BLE device access''
                 (emit EvLock (slog LevelInfo ''Waiting for BLE device access'' w))"

text \<open>The value of \<^verbatim>\<open>backoff\<close> at the head of iteration \<open>k\<close> of the loop of
  \<^verbatim>\<open>performWithRetry\<close>: one second, multiplied by 3 in 64 bits in every iteration
  after the first.\<close>

definition backoffAt :: "nat \<Rightarrow> duration" where
  "backoffAt k = ((\<lambda>b. mul64 b 3) ^^ (k - 1)) (1 * Second)"

subsection \<open>The retry executor as the specification describes it\<close>

text \<open>
  Section 4.1 of the specification: between attempts the executor sleeps
  \<open>baseBackoff * 3 ^ (attemptIndex - 1)\<close>, where the base backoff is one second.
\<close>

definition specBackoff :: "nat \<Rightarrow> duration" where
  "specBackoff k = 1 * Second * 3 ^ (k - 1)"

text \<open>
  The events of a run of the executor whose attempts return \<open>outs\<close>, from attempt \<open>k\<close>
  on (the first attempt is attempt 0): before every attempt but the first a sleep of
  \<open>dur k\<close>, then what the operation does (\<open>ev\<close> of its result), then, after a failed
  attempt, what the failure callback does (\<open>fv\<close> of the error).
\<close>

fun retryTrace ::
  "(nat \<Rightarrow> duration) \<Rightarrow> (error option \<Rightarrow> event list) \<Rightarrow> (error \<Rightarrow> event list) \<Rightarrow>
   nat \<Rightarrow> error option list \<Rightarrow> event list" where
  "retryTrace dur ev fv k [] = []"
| "retryTrace dur ev fv k (out # outs) =
     (if k > 0 then [EvSleep (dur k)] else []) @ ev out @
     (case out of None \<Rightarrow> [] | Some e \<Rightarrow> fv e) @ retryTrace dur ev fv (Suc k) outs"

subsection \<open>Observations on a world\<close>

text \<open>How often \<^verbatim>\<open>RequestBLEDeviceReset\<close> has run: it is the only function that logs
  this line.\<close>

definition requests :: "world \<Rightarrow> nat" where
  "requests w =
     length (filter (\<lambda>m. m = (LevelWarn, ''Explicitly requesting BLE device reset'')) (logs w))"

text \<open>The test of device.go:432-436 on a discovered profile.\<close>

definition usable :: "profile \<Rightarrow> uuid \<Rightarrow> bool" where
  "usable p c = (case Find p c of
                   None \<Rightarrow> False
                 | Some ch \<Rightarrow> (Property ch AND CharNotify) \<noteq> 0 \<and> CCCD ch \<noteq> None)"

text \<open>The events of profile discovery with its retries, and the events of everything a
  poller does between taking the radio lock and disconnecting.\<close>

definition discoveryEvent :: "event \<Rightarrow> bool" where
  "discoveryEvent e = (case e of EvSleep _ \<Rightarrow> True | EvDiscoverProfile _ \<Rightarrow> True | _ \<Rightarrow> False)"

definition inner :: "event \<Rightarrow> bool" where
  "inner e = (case e of
      EvSleep _ \<Rightarrow> True | EvDial _ _ \<Rightarrow> True | EvDiscoverProfile _ \<Rightarrow> True
    | EvWriteCharacteristic _ _ _ \<Rightarrow> True | EvSubscribe _ _ \<Rightarrow> True | EvUnsubscribe _ _ \<Rightarrow> True
    | _ \<Rightarrow> False)"

definition anyEvent :: "event \<Rightarrow> bool" where
  "anyEvent e = True"

text \<open>
  \<open>onward P name w w'\<close>: what the steps of a poller of the device \<open>name\<close> can make of a
  world. The clock does not go back; the trace grows by events of \<open>P\<close>; the flag
  \<^verbatim>\<open>measurement-interval\<close>, the configuration and the radio handle stay; a reset
  request stays; the tallies of the other devices stay; and the tally of \<open>name\<close> grows
  no faster than the clock, as long as that keeps it below \<open>2 ^ 63\<close>.
\<close>

definition onward :: "(event \<Rightarrow> bool) \<Rightarrow> string \<Rightarrow> world \<Rightarrow> world \<Rightarrow> bool" where
  "onward P name w w' \<longleftrightarrow>
     clock w \<le> clock w'
   \<and> (\<exists>es. trace w' = trace w @ es \<and> list_all P es)
   \<and> measurementInterval w' = measurementInterval w
   \<and> globalConfig w' = globalConfig w
   \<and> bleDevice w' = bleDevice w
   \<and> (deviceResetNeeded w = 1 \<longrightarrow> deviceResetNeeded w' = 1)
   \<and> (\<forall>n. n \<noteq> name \<longrightarrow> errorsPerDevice w' n = errorsPerDevice w n)
   \<and> (0 \<le> errorCount w name \<and> errorCount w name + (int (clock w') - int (clock w)) < 2 ^ 63 \<longrightarrow>
          0 \<le> errorCount w' name \<and>
          errorCount w' name - int (clock w') \<le> errorCount w name - int (clock w))"

text \<open>Every tally is between 0 and the number of answers the BLE library has given.\<close>

definition tallyInv :: "world \<Rightarrow> bool" where
  "tallyInv w = (\<forall>n. 0 \<le> errorCount w n \<and> errorCount w n \<le> int (clock w))"

subsection \<open>Runs\<close>

text \<open>
  \<^verbatim>\<open>errorsPerDevice\<close> is read and written in \<^verbatim>\<open>IncrementErrors\<close> and
  \<^verbatim>\<open>ResetErrors\<close> only, both under \<^verbatim>\<open>errorsMutex\<close>: whatever the tasks do,
  the map goes through a sequence of these two operations.
\<close>

datatype tallyOp = OpIncrement string | OpReset string

fun applyOp :: "world \<Rightarrow> tallyOp \<Rightarrow> world" where
  "applyOp w (OpIncrement name) = snd (IncrementErrors name w)"
| "applyOp w (OpReset name) = ResetErrors name w"

definition runOps :: "tallyOp list \<Rightarrow> world \<Rightarrow> world" where
  "runOps ops w = foldl applyOp w ops"

text \<open>
  The worlds reached from the start of \<^verbatim>\<open>main\<close> when poll cycles (of configured
  devices, with any value of \<^verbatim>\<open>consecutiveFailures\<close>, the coordinator clearing the
  flag under them or not) and iterations of the monitor run one after the other.
\<close>

inductive reachable :: "hardware \<Rightarrow> config \<Rightarrow> int \<Rightarrow> nat \<Rightarrow> world \<Rightarrow> bool"
  for hw :: hardware and cfg :: config and interval :: int and h :: nat where
  start: "reachable hw cfg interval h (startWorld cfg interval h)"
| poll: "reachable hw cfg interval h w \<Longrightarrow> d \<in> set (Devices cfg) \<Longrightarrow>
         reachable hw cfg interval h (snd (pollCycle hw d consecutiveFailures c w))"
| monitor: "reachable hw cfg interval h w \<Longrightarrow> reachable hw cfg interval h (monitorStep hw w)"

subsection \<open>Example inputs\<close>

text \<open>A sensor with the notification characteristic and the trigger characteristic, a
  radio on which every call succeeds, one configured device and the world \<^verbatim>\<open>main\<close>
  starts it in.\<close>

definition sensorChar :: characteristic where
  "sensorChar = \<lparr>UUID = characteristix 36, Property = 0x12, CCCD = Some 1, Handle = 54\<rparr>"

definition triggerChar :: characteristic where
  "triggerChar = \<lparr>UUID = characteristix 38, Property = 0x0a, CCCD = None, Handle = 56\<rparr>"

definition goodRadio :: hardware where
  "goodRadio =
     \<lparr>hwDial = (\<lambda>_. None), hwDiscoverProfile = (\<lambda>_. Inr [sensorChar, triggerChar]),
      hwWriteCharacteristic = (\<lambda>_. None), hwSubscribe = (\<lambda>_. None),
      hwNotifications = (\<lambda>_. [[0xE8, 0x03, 0x32, 0x88, 0x13]]), hwUnsubscribe = (\<lambda>_. None),
      hwCancelConnection = (\<lambda>_. None), hwNewDevice = (\<lambda>_. Inr 1), hwLockWithin = (\<lambda>_. True)\<rparr>"

definition kitchen :: device where
  "kitchen = \<lparr>Name = ''kitchen'', Addr = ''A4:C1:38:00:00:01''\<rparr>"

definition kitchenWorld :: world where
  "kitchenWorld = startWorld \<lparr>Devices = [kitchen]\<rparr> 60 0"

text \<open>The two closures of \<^verbatim>\<open>subscribeToCharacteristic\<close> (device.go:308-327) for
  this device on a radio.\<close>

definition kitchenSubscribe :: "hardware \<Rightarrow> int \<times> world \<Rightarrow> error option \<times> int \<times> world" where
  "kitchenSubscribe hw =
     (\<lambda>(localErrors, w'). case clientSubscribe hw sensorChar w' of
                            (err, w'') \<Rightarrow> (err, localErrors, w''))"

definition kitchenOnError :: "error \<Rightarrow> int \<times> world \<Rightarrow> int \<times> world" where
  "kitchenOnError = (\<lambda>err (localErrors, w'). trackError kitchen ''Subscribe error'' localErrors w')"



definition mutedRadio :: hardware where
  "mutedRadio = goodRadio\<lparr>hwSubscribe := (\<lambda>_. Some ''refused'')\<rparr>"

definition hesitantRadio :: hardware where
  "hesitantRadio = goodRadio\<lparr>hwSubscribe := (\<lambda>n. if n = 0 then Some ''refused'' else None)\<rparr>"

definition flakyRadio :: hardware where
  "flakyRadio = goodRadio\<lparr>hwDiscoverProfile :=
     (\<lambda>n. if n = 0 then Inl ''busy'' else Inr [sensorChar, triggerChar])\<rparr>"

definition bareRadio :: hardware where
  "bareRadio = goodRadio\<lparr>hwDiscoverProfile := (\<lambda>_. Inr [triggerChar])\<rparr>"

definition busyRadio :: hardware where
  "busyRadio = goodRadio\<lparr>hwLockWithin := (\<lambda>_. False)\<rparr>"

text \<open>A world in which the device has three failures on its tally and a reset is requested.\<close>

definition troubledWorld :: world where
  "troubledWorld = kitchenWorld\<lparr>deviceResetNeeded := 1, errorsPerDevice := [''kitchen'' \<mapsto> 3]\<rparr>"

text \<open>An operation that fails whenever it is called, and touches nothing.\<close>

definition alwaysFails :: "unit \<times> world \<Rightarrow> error option \<times> unit \<times> world" where
  "alwaysFails s = (Some ''timeout'', s)"

section \<open>The sensor payload and the battery gauge\<close>

lemma or_push8: "take_bit 8 (k::int) OR push_bit 8 l = take_bit 8 k + push_bit 8 l"
  using concat_bit_def[of 8 k l] concat_bit_eq[of 8 k l] by simp

lemma uint_byte_lt: "uint (b::byte) < 256"
  using uint_bounded[of b] by simp

lemma Uint16_value: "uint (Uint16 b0 b1) = uint b0 + 256 * uint b1"
proof -
  have b0: "take_bit 8 (uint b0) = uint b0"
    by (simp add: take_bit_int_eq_self_iff uint_byte_lt)
  have t0: "take_bit 16 (uint b0) = uint b0"
    using uint_byte_lt[of b0] by (simp add: take_bit_int_eq_self_iff)
  have t1: "take_bit 16 (uint b1) = uint b1"
    using uint_byte_lt[of b1] by (simp add: take_bit_int_eq_self_iff)
  have "uint (Uint16 b0 b1) = uint b0 OR take_bit 16 (push_bit 8 (uint b1))"
    unfolding Uint16_def by (simp add: uint_or unsigned_ucast_eq unsigned_push_bit_eq t0 t1)
  also have "take_bit 16 (push_bit 8 (uint b1)) = push_bit 8 (uint b1)"
    using uint_byte_lt[of b1] by (simp add: take_bit_int_eq_self_iff push_bit_eq_mult)
  also have "uint b0 OR push_bit 8 (uint b1) = uint b0 + push_bit 8 (uint b1)"
    using or_push8[of "uint b0" "uint b1"] b0 by simp
  finally show ?thesis by (simp add: push_bit_eq_mult)
qed

text \<open>
  Claim C6. A payload of exactly five bytes decodes, without an error, to the temperature
  (bytes 0 and 1, little-endian, divided by 100), the humidity (byte 2) and the voltage
  (bytes 3 and 4, little-endian, divided by 1000); \<^verbatim>\<open>Unmarshall\<close> returns no error
  exactly when the length is 5; the bytes E8 03 32 88 13 decode to 10.00, 50 and 5.000.
\<close>

theorem Unmarshall_decodes:
  "Unmarshall [b0, b1, b2, b3, b4] w =
     ((\<lparr>Temperature = real_of_int (uint b0 + 256 * uint b1) / 100,
        Humidity = real_of_int (uint b2),
        Voltage = real_of_int (uint b3 + 256 * uint b4) / 1000\<rparr>, None), w)
   \<and> ((snd (fst (Unmarshall req w)) = None) = (length req = 5))
   \<and> fst (Unmarshall [0xE8, 0x03, 0x32, 0x88, 0x13] w) =
       (\<lparr>Temperature = 10, Humidity = 50, Voltage = 5\<rparr>, None)"
proof -
  have five: "Unmarshall [b0, b1, b2, b3, b4] w =
     ((\<lparr>Temperature = real_of_int (uint b0 + 256 * uint b1) / 100,
        Humidity = real_of_int (uint b2),
        Voltage = real_of_int (uint b3 + 256 * uint b4) / 1000\<rparr>, None), w)" for b0 b1 b2 b3 b4
    by (simp add: Unmarshall_def Uint16_value)
  have len: "(snd (fst (Unmarshall req w)) = None) = (length req = 5)"
    by (simp add: Unmarshall_def Let_def)
  have ex: "fst (Unmarshall [0xE8, 0x03, 0x32, 0x88, 0x13] w) =
       (\<lparr>Temperature = 10, Humidity = 50, Voltage = 5\<rparr>, None)"
    by (simp add: five)
  from five len ex show ?thesis by blast
qed

lemma mathRound_of_int: "mathRound (real_of_int k) = real_of_int k"
  by (simp add: mathRound_def)

lemma batteryPercent_millivolt:
  "batteryPercent (real_of_int n / 1000) = min (real_of_int (n - 2100) / 10) 100"
proof -
  have e: "min ((real_of_int n / 1000 - 2.1) * 100) 100 * 100 =
           real_of_int (min ((n - 2100) * 10) 10000)"
    by (simp add: min_def field_simps)
  show ?thesis
    unfolding batteryPercent_def e mathRound_of_int
    by (simp add: min_def field_simps)
qed

lemma batteryPercent_clamped:
  assumes "3.1 \<le> v"
  shows "batteryPercent v = 100"
proof -
  have "100 \<le> (v - 2.1) * 100" using assms by simp
  then have "min ((v - 2.1) * 100) 100 = 100" by (rule min_absorb2)
  then show ?thesis by (simp add: batteryPercent_def mathRound_def)
qed

text \<open>
  Claim C7. For a payload of five bytes the handler publishes, as the battery gauge of the
  device, \<open>round (min ((v - 2.1) * 100) 100 * 100) / 100\<close> of the decoded voltage \<open>v\<close>.
  This maps 2.1 to 0 and 3.1 to 100, every voltage from 3.1 up (3.5 for one) to 100, a
  voltage of \<open>n\<close> millivolts up to 3100 to \<open>(n - 2100) / 10\<close>, and so a voltage below
  2.1 to a negative percentage: there is no clamp below.
\<close>

theorem battery_percent_formula:
  "battery (handlerPublisher name [b0, b1, b2, b3, b4] w) name =
     Some (mathRound (min ((Voltage (fst (fst (Unmarshall [b0, b1, b2, b3, b4] w))) - 2.1) * 100)
                          100 * 100) / 100)
   \<and> batteryPercent 2.1 = 0
   \<and> batteryPercent 3.1 = 100
   \<and> (3.1 \<le> v \<longrightarrow> batteryPercent v = 100)
   \<and> batteryPercent 3.5 = 100
   \<and> (n \<le> 3100 \<longrightarrow> batteryPercent (real_of_int n / 1000) = real_of_int (n - 2100) / 10)
   \<and> (n < 2100 \<longrightarrow> batteryPercent (real_of_int n / 1000) < 0)"
proof -
  have pub: "battery (handlerPublisher name [b0, b1, b2, b3, b4] w) name =
     Some (mathRound (min ((Voltage (fst (fst (Unmarshall [b0, b1, b2, b3, b4] w))) - 2.1) * 100)
                          100 * 100) / 100)"
    by (simp add: handlerPublisher_def Unmarshall_def slog_def batteryPercent_def Let_def)
  have lo: "batteryPercent 2.1 = 0" by (simp add: batteryPercent_def mathRound_def)
  have hi: "batteryPercent 3.1 = 100" by (simp add: batteryPercent_def mathRound_def)
  have hi2: "batteryPercent 3.5 = 100" by (simp add: batteryPercent_def mathRound_def)
  have mv: "n \<le> 3100 \<longrightarrow> batteryPercent (real_of_int n / 1000) = real_of_int (n - 2100) / 10"
    by (simp add: batteryPercent_millivolt min_def)
  have neg: "n < 2100 \<longrightarrow> batteryPercent (real_of_int n / 1000) < 0"
    by (simp add: batteryPercent_millivolt min_def)
  from pub lo hi hi2 mv neg batteryPercent_clamped show ?thesis by blast
qed

theorem battery_percent_formula_witness:
  "(3.1::real) \<le> 4 \<and> batteryPercent 4 = 100
   \<and> (2000::int) \<le> 3100 \<and> batteryPercent (real_of_int 2000 / 1000) = real_of_int (2000 - 2100) / 10
   \<and> (2000::int) < 2100 \<and> batteryPercent (real_of_int 2000 / 1000) < 0"
  using battery_percent_formula [of "''kitchen''" 0 0 0 0 0 "startWorld \<lparr>Devices = []\<rparr> 60 0" 4 2000]
  by simp

text \<open>
  Claim C8. For a payload whose length is not 5 the handler only logs (the line of
  \<^verbatim>\<open>Unmarshall\<close> and its own error line) and returns: the four gauges, the failure
  tally and the error counter are as before.
\<close>

theorem handler_drops_bad_length:
  assumes "length req \<noteq> 5"
  shows "handlerPublisher name req w =
           w\<lparr>logs := logs w @ [(LevelInfo, ''[X] Expecting 5 bytes; got '' @ decimal (length req)),
                                (LevelError, ''Unable to unmarshal data'')]\<rparr>
         \<and> temperature (handlerPublisher name req w) = temperature w
         \<and> humidity (handlerPublisher name req w) = humidity w
         \<and> voltage (handlerPublisher name req w) = voltage w
         \<and> battery (handlerPublisher name req w) = battery w
         \<and> errorsPerDevice (handlerPublisher name req w) = errorsPerDevice w
         \<and> deviceErrorsCounter (handlerPublisher name req w) = deviceErrorsCounter w"
  using assms by (simp add: handlerPublisher_def Unmarshall_def slog_def Let_def)

theorem handler_drops_bad_length_witness:
  "length [1, 2, 3, 4 :: byte] \<noteq> 5
   \<and> temperature (handlerPublisher ''kitchen'' [1, 2, 3, 4] (startWorld \<lparr>Devices = []\<rparr> 60 0)) = Map.empty
   \<and> battery (handlerPublisher ''kitchen'' [1, 2, 3, 4] (startWorld \<lparr>Devices = []\<rparr> 60 0)) = Map.empty
   \<and> errorsPerDevice (handlerPublisher ''kitchen'' [1, 2, 3, 4] (startWorld \<lparr>Devices = []\<rparr> 60 0)) = Map.empty
   \<and> logs (handlerPublisher ''kitchen'' [1, 2, 3, 4] (startWorld \<lparr>Devices = []\<rparr> 60 0)) =
       [(LevelInfo, ''[X] Expecting 5 bytes; got 4''), (LevelError, ''Unable to unmarshal data'')]"
  using handler_drops_bad_length [of "[1, 2, 3, 4]" "''kitchen''" "startWorld \<lparr>Devices = []\<rparr> 60 0"]
  by (simp add: startWorld_def)

section \<open>Arithmetic in 64 bits\<close>

lemma wrap64_id: "- (2 ^ 63) \<le> x \<Longrightarrow> x < 2 ^ 63 \<Longrightarrow> wrap64 x = x"
  unfolding wrap64_def by (simp add: signed_take_bit_int_eq_self)

lemma incr_exact: "0 \<le> t \<Longrightarrow> t + 1 < 2 ^ 63 \<Longrightarrow> incr t = t + 1"
  unfolding incr_def by (rule wrap64_id) simp_all

lemma incr_small: "incr 0 = 1" "incr 1 = 2" "incr 2 = 3" "incr 3 = 4" "incr 4 = 5"
  by (simp_all add: incr_def wrap64_id)

lemma nextBackoff_backoffAt: "nextBackoff (int k) (backoffAt k) = backoffAt (Suc k)"
  by (cases k) (simp_all add: nextBackoff_def backoffAt_def)

lemma pow3_bound: "j \<le> 20 \<Longrightarrow> (3::int) ^ j \<le> 3 ^ 20"
  by (rule power_increasing) simp_all

lemma funpow_mul64_exact: "j \<le> 20 \<Longrightarrow> ((\<lambda>b. mul64 b 3) ^^ j) Second = Second * 3 ^ j"
proof (induction j)
  case 0
  then show ?case by simp
next
  case (Suc j)
  then have ih: "((\<lambda>b. mul64 b 3) ^^ j) Second = Second * 3 ^ j" by simp
  have "(3::int) ^ Suc j \<le> 3 ^ 20" using Suc.prems by (rule pow3_bound)
  then have b: "(3::int) ^ Suc j \<le> 3486784401" by simp
  have s0: "(0::int) \<le> Second" by (simp add: Second_def)
  have p: "0 \<le> Second * 3 ^ Suc j" using s0 by (rule mult_nonneg_nonneg) simp
  have u: "Second * 3 ^ Suc j \<le> Second * 3486784401" using b s0 by (rule mult_left_mono)
  have w: "wrap64 (Second * 3 ^ Suc j) = Second * 3 ^ Suc j"
  proof (rule wrap64_id)
    have "- (2 ^ 63) \<le> (0::int)" by simp
    with p show "- (2 ^ 63) \<le> Second * 3 ^ Suc j" by linarith
    have "Second * 3486784401 < 2 ^ 63" by (simp add: Second_def)
    with u show "Second * 3 ^ Suc j < 2 ^ 63" by linarith
  qed
  have "((\<lambda>b. mul64 b 3) ^^ Suc j) Second = mul64 (((\<lambda>b. mul64 b 3) ^^ j) Second) 3"
    by simp
  also have "\<dots> = mul64 (Second * 3 ^ j) 3" by (simp only: ih)
  also have "\<dots> = wrap64 (Second * 3 ^ Suc j)" by (simp add: mul64_def algebra_simps)
  finally show ?case using w by simp
qed

lemma backoffAt_exact: "k \<le> 21 \<Longrightarrow> backoffAt k = specBackoff k"
  using funpow_mul64_exact[of "k - 1"] by (simp add: backoffAt_def specBackoff_def)

section \<open>The failure tally\<close>

lemma IncrementErrors_fst: "fst (IncrementErrors n w) = incr (errorCount w n)"
  by (simp add: IncrementErrors_def Let_def errorCount_def)

lemma IncrementErrors_tally:
  "errorsPerDevice (snd (IncrementErrors n w)) = (errorsPerDevice w)(n \<mapsto> incr (errorCount w n))"
  by (simp add: IncrementErrors_def Let_def RequestBLEDeviceReset_def slog_def)

lemma IncrementErrors_flag:
  "deviceResetNeeded (snd (IncrementErrors n w)) =
     (if incr (errorCount w n) \<ge> 3 then 1 else deviceResetNeeded w)"
  by (simp add: IncrementErrors_def Let_def RequestBLEDeviceReset_def slog_def errorCount_def)

lemma IncrementErrors_logs:
  "logs (snd (IncrementErrors n w)) =
     logs w @ (if incr (errorCount w n) \<ge> 3 then
                 [(LevelWarn, ''Device has accumulated too many errors, requesting reset''),
                  (LevelWarn, ''Explicitly requesting BLE device reset'')]
               else [])"
  by (simp add: IncrementErrors_def Let_def RequestBLEDeviceReset_def slog_def errorCount_def)

lemma IncrementErrors_frame:
  "clock (snd (IncrementErrors n w)) = clock w"
  "trace (snd (IncrementErrors n w)) = trace w"
  "bleDevice (snd (IncrementErrors n w)) = bleDevice w"
  "globalConfig (snd (IncrementErrors n w)) = globalConfig w"
  "measurementInterval (snd (IncrementErrors n w)) = measurementInterval w"
  "temperature (snd (IncrementErrors n w)) = temperature w"
  "humidity (snd (IncrementErrors n w)) = humidity w"
  "voltage (snd (IncrementErrors n w)) = voltage w"
  "battery (snd (IncrementErrors n w)) = battery w"
  "deviceErrorsCounter (snd (IncrementErrors n w)) = deviceErrorsCounter w"
  by (simp_all add: IncrementErrors_def Let_def RequestBLEDeviceReset_def slog_def)

lemmas IncrementErrors_simps = IncrementErrors_fst IncrementErrors_tally IncrementErrors_flag
  IncrementErrors_logs IncrementErrors_frame

lemma trackError_eq:
  "trackError d msg l w =
     (incr l, slog LevelInfo ''Tracked error'' (snd (IncrementErrors (Name d) (slog LevelError msg w))))"
  by (simp add: trackError_def Let_def split: prod.splits)

section \<open>The retry loops, one iteration at a time\<close>

lemma pwr_done:
  "\<not> retry < maxRetries \<Longrightarrow>
   performWithRetry_loop d op maxRetries action onError retry backoff s = (False, s)"
  by (simp add: performWithRetry_loop.simps)

lemma pwr_unfold:
  "retry < maxRetries \<Longrightarrow>
   performWithRetry_loop d op maxRetries action onError retry backoff s =
     (case action (beforeAttempt retry backoff s) of
        (None, s2) \<Rightarrow> (True, s2)
      | (Some e, s2) \<Rightarrow>
          performWithRetry_loop d op maxRetries action onError (retry + 1) (nextBackoff retry backoff)
            (afterFailure onError e s2))"
  by (subst performWithRetry_loop.simps)
     (simp add: beforeAttempt_def nextBackoff_def afterFailure_def split: prod.splits option.splits)

lemma Connect_loop_done:
  "\<not> retry < maxRetries \<Longrightarrow> Connect_loop hw d maxRetries retry backoff err w = (err, w)"
  by (simp add: Connect_loop.simps)

lemma Connect_loop_unfold:
  "retry < maxRetries \<Longrightarrow>
   Connect_loop hw d maxRetries retry backoff err w =
     (case hostDial hw (Addr d) (beforeDial retry backoff w) of
        (None, w2) \<Rightarrow> (None, w2)
      | (Some e, w2) \<Rightarrow>
          Connect_loop hw d maxRetries (retry + 1) (nextBackoff retry backoff) (Some e)
            (slog LevelInfo ''Connection error'' w2))"
  by (subst Connect_loop.simps)
     (simp add: beforeDial_def nextBackoff_def split: prod.splits option.splits)

section \<open>The trace of the retry executor\<close>

lemma retryTrace_cong:
  "(\<And>j. k \<le> j \<Longrightarrow> j < k + length outs \<Longrightarrow> dur1 j = dur2 j) \<Longrightarrow>
   retryTrace dur1 ev fv k outs = retryTrace dur2 ev fv k outs"
  by (induction outs arbitrary: k) auto

lemma pwr_loop_trace:
  assumes act: "\<And>s. trace (snd (snd (action s))) = trace (snd s) @ ev (fst (action s))"
    and err: "\<And>e s. trace (snd (afterFailure onError e s)) = trace (snd s) @ fv e"
  shows "nat (maxRetries - int k) = n \<Longrightarrow>
    \<exists>outs. trace (snd (snd (performWithRetry_loop d op maxRetries action onError (int k) (backoffAt k) s)))
             = trace (snd s) @ retryTrace backoffAt ev fv k outs
         \<and> length outs \<le> n
         \<and> None \<notin> set (butlast outs)
         \<and> fst (performWithRetry_loop d op maxRetries action onError (int k) (backoffAt k) s)
             = (outs \<noteq> [] \<and> last outs = None)
         \<and> (fst (performWithRetry_loop d op maxRetries action onError (int k) (backoffAt k) s)
              \<or> length outs = n)"
proof (induction n arbitrary: k s)
  case 0
  then have "\<not> int k < maxRetries" by simp
  then have "performWithRetry_loop d op maxRetries action onError (int k) (backoffAt k) s = (False, s)"
    by (rule pwr_done)
  then show ?case by (intro exI[of _ "[]"]) simp
next
  case (Suc n)
  then have lt: "int k < maxRetries" by simp
  let ?s1 = "beforeAttempt (int k) (backoffAt k) s"
  have t1: "trace (snd ?s1) = trace (snd s) @ (if k > 0 then [EvSleep (backoffAt k)] else [])"
    by (simp add: beforeAttempt_def timeSleep_def emit_def slog_def)
  obtain r s2 where a: "action ?s1 = (r, s2)" by (cases "action ?s1")
  have t2: "trace (snd s2) = trace (snd ?s1) @ ev r"
    using act[of ?s1] a by simp
  show ?case
  proof (cases r)
    case None
    have res: "performWithRetry_loop d op maxRetries action onError (int k) (backoffAt k) s = (True, s2)"
      using lt a None by (simp add: pwr_unfold)
    show ?thesis
      by (intro exI[of _ "[None]"]) (simp add: res t2 t1 None)
  next
    case (Some e)
    let ?s3 = "afterFailure onError e s2"
    have res: "performWithRetry_loop d op maxRetries action onError (int k) (backoffAt k) s =
       performWithRetry_loop d op maxRetries action onError (int (Suc k)) (backoffAt (Suc k)) ?s3"
      using lt a Some by (simp add: pwr_unfold nextBackoff_backoffAt add.commute)
    have m: "nat (maxRetries - int (Suc k)) = n" using Suc.prems by simp
    from Suc.IH[OF m, of ?s3] obtain outs where
      o: "trace (snd (snd (performWithRetry_loop d op maxRetries action onError (int (Suc k)) (backoffAt (Suc k)) ?s3)))
             = trace (snd ?s3) @ retryTrace backoffAt ev fv (Suc k) outs"
         "length outs \<le> n"
         "None \<notin> set (butlast outs)"
         "fst (performWithRetry_loop d op maxRetries action onError (int (Suc k)) (backoffAt (Suc k)) ?s3)
             = (outs \<noteq> [] \<and> last outs = None)"
         "fst (performWithRetry_loop d op maxRetries action onError (int (Suc k)) (backoffAt (Suc k)) ?s3)
            \<or> length outs = n"
      by blast
    have t3: "trace (snd ?s3) = trace (snd s2) @ fv e" by (rule err)
    show ?thesis
      apply (intro exI[of _ "Some e # outs"])
      unfolding res
      using o by (auto simp add: t3 t2 t1 Some)
  qed
qed

text \<open>
  Claim C5, amended. For \<open>1 \<le> maxRetries \<le> 22\<close>, an operation whose calls leave the
  events \<open>ev\<close> of their result, and a failure callback (when one is given) whose calls
  leave the events \<open>fv\<close> of the error: the run of \<^verbatim>\<open>performWithRetry\<close> is a
  sequence of at least one and at most \<open>maxRetries\<close> calls of the operation, all failed
  but possibly the last; before retry \<open>k\<close> it sleeps \<open>1 s * 3 ^ (k - 1)\<close>; the callback
  runs after every failed call; the result is true exactly when the last call succeeded,
  and when it is false all \<open>maxRetries\<close> calls were made.
\<close>

theorem retry_executor_attempts:
  assumes lo: "1 \<le> maxRetries" and hi: "maxRetries \<le> 22"
    and act: "\<And>s. trace (snd (snd (action s))) = trace (snd s) @ ev (fst (action s))"
    and err: "\<And>h e s. onError = Some h \<Longrightarrow> trace (snd (h e s)) = trace (snd s) @ fv e"
  shows "\<exists>outs.
      trace (snd (snd (performWithRetry d op maxRetries action onError s)))
        = trace (snd s) @ retryTrace specBackoff ev (if onError = None then (\<lambda>e. []) else fv) 0 outs
    \<and> 1 \<le> length outs \<and> int (length outs) \<le> maxRetries
    \<and> None \<notin> set (butlast outs)
    \<and> fst (performWithRetry d op maxRetries action onError s) = (last outs = None)
    \<and> (fst (performWithRetry d op maxRetries action onError s) \<or> int (length outs) = maxRetries)"
proof -
  let ?fv = "if onError = None then (\<lambda>e. []) else fv"
  let ?r = "performWithRetry d op maxRetries action onError s"
  have e: "trace (snd (afterFailure onError e s)) = trace (snd s) @ ?fv e" for e and s :: "'a \<times> world"
    by (cases onError) (simp_all add: afterFailure_def err)
  have r: "?r = performWithRetry_loop d op maxRetries action onError (int 0) (backoffAt 0) s"
    by (simp add: performWithRetry_def backoffAt_def)
  have m: "nat (maxRetries - int 0) = nat maxRetries" by simp
  from pwr_loop_trace[where action = action and ev = ev and onError = onError and fv = ?fv,
      OF act e m, of d op s]
  obtain outs where
    o: "trace (snd (snd ?r)) = trace (snd s) @ retryTrace backoffAt ev ?fv 0 outs"
       "length outs \<le> nat maxRetries"
       "None \<notin> set (butlast outs)"
       "fst ?r = (outs \<noteq> [] \<and> last outs = None)"
       "fst ?r \<or> length outs = nat maxRetries"
    unfolding r by blast
  have ne: "outs \<noteq> []" using o(4) o(5) lo by auto
  have len: "length outs \<le> 22" using o(2) hi by simp
  have "retryTrace backoffAt ev ?fv 0 outs = retryTrace specBackoff ev ?fv 0 outs"
    by (rule retryTrace_cong) (use len in \<open>simp add: backoffAt_exact\<close>)
  with o ne lo show ?thesis
    by (intro exI[of _ outs]) (auto simp add: Suc_le_eq)
qed

theorem retry_executor_attempts_witness:
  "(1::int) \<le> 3 \<and> (3::int) \<le> 22
   \<and> (\<forall>s. trace (snd (snd (kitchenSubscribe mutedRadio s)))
           = trace (snd s) @ [EvSubscribe 54 (fst (kitchenSubscribe mutedRadio s))])
   \<and> (\<forall>s. trace (snd (snd (kitchenSubscribe hesitantRadio s)))
           = trace (snd s) @ [EvSubscribe 54 (fst (kitchenSubscribe hesitantRadio s))])
   \<and> (\<forall>e s. trace (snd (kitchenOnError e s)) = trace (snd s) @ [])
   \<and> (\<exists>outs.
        trace (snd (snd (performWithRetry kitchen ''subscription'' 3 (kitchenSubscribe mutedRadio)
                           (Some kitchenOnError) (0, kitchenWorld))))
          = trace kitchenWorld @ retryTrace specBackoff (\<lambda>r. [EvSubscribe 54 r]) (\<lambda>e. []) 0 outs
      \<and> length outs = 3 \<and> None \<notin> set (butlast outs) \<and> last outs \<noteq> None)
   \<and> \<not> fst (performWithRetry kitchen ''subscription'' 3 (kitchenSubscribe mutedRadio)
                (Some kitchenOnError) (0, kitchenWorld))
   \<and> trace (snd (snd (performWithRetry kitchen ''subscription'' 3 (kitchenSubscribe mutedRadio)
                         (Some kitchenOnError) (0, kitchenWorld))))
       = [EvSubscribe 54 (Some ''refused''), EvSleep (1 * Second),
          EvSubscribe 54 (Some ''refused''), EvSleep (3 * Second),
          EvSubscribe 54 (Some ''refused'')]
   \<and> fst (snd (performWithRetry kitchen ''subscription'' 3 (kitchenSubscribe mutedRadio)
                  (Some kitchenOnError) (0, kitchenWorld))) = 3
   \<and> (\<exists>outs.
        trace (snd (snd (performWithRetry kitchen ''subscription'' 3 (kitchenSubscribe hesitantRadio)
                           (Some kitchenOnError) (0, kitchenWorld))))
          = trace kitchenWorld @ retryTrace specBackoff (\<lambda>r. [EvSubscribe 54 r]) (\<lambda>e. []) 0 outs
      \<and> 1 \<le> length outs \<and> int (length outs) \<le> 3
      \<and> None \<notin> set (butlast outs) \<and> last outs = None)
   \<and> fst (performWithRetry kitchen ''subscription'' 3 (kitchenSubscribe hesitantRadio)
              (Some kitchenOnError) (0, kitchenWorld))
   \<and> trace (snd (snd (performWithRetry kitchen ''subscription'' 3 (kitchenSubscribe hesitantRadio)
                         (Some kitchenOnError) (0, kitchenWorld))))
       = [EvSubscribe 54 (Some ''refused''), EvSleep (1 * Second), EvSubscribe 54 None]
   \<and> fst (snd (performWithRetry kitchen ''subscription'' 3 (kitchenSubscribe hesitantRadio)
                  (Some kitchenOnError) (0, kitchenWorld))) = 1"
proof -
  let ?R = "performWithRetry kitchen ''subscription'' 3 (kitchenSubscribe mutedRadio)
              (Some kitchenOnError) (0, kitchenWorld)"
  let ?H = "performWithRetry kitchen ''subscription'' 3 (kitchenSubscribe hesitantRadio)
              (Some kitchenOnError) (0, kitchenWorld)"
  note ev = performWithRetry_def pwr_unfold pwr_done beforeAttempt_def nextBackoff_def
    afterFailure_def Let_def kitchenSubscribe_def kitchenOnError_def clientSubscribe_def
    trackError_eq IncrementErrors_simps errorCount_def tick_def emit_def slog_def timeSleep_def
    incr_small mutedRadio_def hesitantRadio_def goodRadio_def sensorChar_def kitchen_def
    kitchenWorld_def startWorld_def Second_def mul64_def wrap64_def
    signed_take_bit_eq_take_bit_minus
  have a: "trace (snd (snd (kitchenSubscribe hw s)))
      = trace (snd s) @ [EvSubscribe 54 (fst (kitchenSubscribe hw s))]" for hw s
    by (cases s)
       (simp add: kitchenSubscribe_def clientSubscribe_def Let_def emit_def tick_def sensorChar_def)
  have h: "trace (snd (kitchenOnError e s)) = trace (snd s) @ []" for e s
    by (cases s) (simp add: kitchenOnError_def trackError_eq IncrementErrors_simps slog_def)
  have r: "\<not> fst ?R"
    "trace (snd (snd ?R))
       = [EvSubscribe 54 (Some ''refused''), EvSleep (1 * Second),
          EvSubscribe 54 (Some ''refused''), EvSleep (3 * Second),
          EvSubscribe 54 (Some ''refused'')]"
    "fst (snd ?R) = 3"
    by (simp_all add: ev)
  have g: "fst ?H"
    "trace (snd (snd ?H))
       = [EvSubscribe 54 (Some ''refused''), EvSleep (1 * Second), EvSubscribe 54 None]"
    "fst (snd ?H) = 1"
    by (simp_all add: ev)
  have "\<exists>outs.
      trace (snd (snd ?R))
        = trace (snd (0::int, kitchenWorld)) @ retryTrace specBackoff (\<lambda>r. [EvSubscribe 54 r])
            (if Some kitchenOnError = None then (\<lambda>e. []) else (\<lambda>e. [])) 0 outs
    \<and> 1 \<le> length outs \<and> int (length outs) \<le> 3
    \<and> None \<notin> set (butlast outs)
    \<and> fst ?R = (last outs = None)
    \<and> (fst ?R \<or> int (length outs) = 3)"
    by (rule retry_executor_attempts) (simp_all add: a h)
  with r(1) have i: "\<exists>outs.
        trace (snd (snd ?R))
          = trace kitchenWorld @ retryTrace specBackoff (\<lambda>r. [EvSubscribe 54 r]) (\<lambda>e. []) 0 outs
      \<and> length outs = 3 \<and> None \<notin> set (butlast outs) \<and> last outs \<noteq> None"
    by auto
  have "\<exists>outs.
      trace (snd (snd ?H))
        = trace (snd (0::int, kitchenWorld)) @ retryTrace specBackoff (\<lambda>r. [EvSubscribe 54 r])
            (if Some kitchenOnError = None then (\<lambda>e. []) else (\<lambda>e. [])) 0 outs
    \<and> 1 \<le> length outs \<and> int (length outs) \<le> 3
    \<and> None \<notin> set (butlast outs)
    \<and> fst ?H = (last outs = None)
    \<and> (fst ?H \<or> int (length outs) = 3)"
    by (rule retry_executor_attempts) (simp_all add: a h)
  with g(1) have j: "\<exists>outs.
        trace (snd (snd ?H))
          = trace kitchenWorld @ retryTrace specBackoff (\<lambda>r. [EvSubscribe 54 r]) (\<lambda>e. []) 0 outs
      \<and> 1 \<le> length outs \<and> int (length outs) \<le> 3
      \<and> None \<notin> set (butlast outs) \<and> last outs = None"
    by auto
  have ah: "(\<forall>s. trace (snd (snd (kitchenSubscribe mutedRadio s)))
           = trace (snd s) @ [EvSubscribe 54 (fst (kitchenSubscribe mutedRadio s))])
   \<and> (\<forall>s. trace (snd (snd (kitchenSubscribe hesitantRadio s)))
           = trace (snd s) @ [EvSubscribe 54 (fst (kitchenSubscribe hesitantRadio s))])
   \<and> (\<forall>e s. trace (snd (kitchenOnError e s)) = trace (snd s) @ [])"
    using a h by simp
  from ah i j r g show ?thesis by (intro conjI) simp_all
qed

text \<open>
  Claim C5 as stated fails for 23 attempts: the backoff before retry 22 would be
  \<open>3 ^ 21\<close> seconds, more than an \<^verbatim>\<open>int64\<close> of nanoseconds holds; the loop's
  \<^verbatim>\<open>backoff *= 3\<close> wraps around, and the sleep is of a negative duration.
\<close>

theorem retry_backoff_overflow:
  "trace (snd (snd (performWithRetry kitchen ''op'' 23 alwaysFails None ((), kitchenWorld)))) ! 21
     = EvSleep (- 7986390870709551616)
   \<and> length (trace (snd (snd (performWithRetry kitchen ''op'' 23 alwaysFails None ((), kitchenWorld))))) = 22
   \<and> specBackoff 22 = 10460353203000000000"
  by (simp add: performWithRetry_def pwr_unfold pwr_done beforeAttempt_def nextBackoff_def
        afterFailure_def alwaysFails_def timeSleep_def emit_def slog_def kitchenWorld_def
        startWorld_def Second_def specBackoff_def mul64_def wrap64_def
        signed_take_bit_eq_take_bit_minus)

section \<open>What the steps of a poller keep\<close>

lemma onward_refl: "onward P name w w"
  by (simp add: onward_def)

lemma onward_quiet:
  "clock w \<le> clock w' \<Longrightarrow> trace w' = trace w \<Longrightarrow> errorsPerDevice w' = errorsPerDevice w \<Longrightarrow>
   measurementInterval w' = measurementInterval w \<Longrightarrow> globalConfig w' = globalConfig w \<Longrightarrow>
   bleDevice w' = bleDevice w \<Longrightarrow> (deviceResetNeeded w = 1 \<longrightarrow> deviceResetNeeded w' = 1) \<Longrightarrow>
   onward P name w w'"
  by (simp add: onward_def errorCount_def)

lemma onward_event:
  "P e \<Longrightarrow> clock w \<le> clock w' \<Longrightarrow> trace w' = trace w @ [e] \<Longrightarrow>
   errorsPerDevice w' = errorsPerDevice w \<Longrightarrow>
   measurementInterval w' = measurementInterval w \<Longrightarrow> globalConfig w' = globalConfig w \<Longrightarrow>
   bleDevice w' = bleDevice w \<Longrightarrow> (deviceResetNeeded w = 1 \<longrightarrow> deviceResetNeeded w' = 1) \<Longrightarrow>
   onward P name w w'"
  by (simp add: onward_def errorCount_def)

lemma onward_trans:
  assumes a: "onward P name w1 w2" and b: "onward P name w2 w3"
  shows "onward P name w1 w3"
proof -
  from a obtain es1 where c1: "clock w1 \<le> clock w2" and t1: "trace w2 = trace w1 @ es1" "list_all P es1"
    and k1: "measurementInterval w2 = measurementInterval w1" "globalConfig w2 = globalConfig w1"
      "bleDevice w2 = bleDevice w1" "deviceResetNeeded w1 = 1 \<longrightarrow> deviceResetNeeded w2 = 1"
    and o1: "\<And>n. n \<noteq> name \<Longrightarrow> errorsPerDevice w2 n = errorsPerDevice w1 n"
    and b1: "0 \<le> errorCount w1 name \<Longrightarrow> errorCount w1 name + (int (clock w2) - int (clock w1)) < 2 ^ 63 \<Longrightarrow>
          0 \<le> errorCount w2 name \<and> errorCount w2 name - int (clock w2) \<le> errorCount w1 name - int (clock w1)"
    unfolding onward_def by blast
  from b obtain es2 where c2: "clock w2 \<le> clock w3" and t2: "trace w3 = trace w2 @ es2" "list_all P es2"
    and k2: "measurementInterval w3 = measurementInterval w2" "globalConfig w3 = globalConfig w2"
      "bleDevice w3 = bleDevice w2" "deviceResetNeeded w2 = 1 \<longrightarrow> deviceResetNeeded w3 = 1"
    and o2: "\<And>n. n \<noteq> name \<Longrightarrow> errorsPerDevice w3 n = errorsPerDevice w2 n"
    and b2: "0 \<le> errorCount w2 name \<Longrightarrow> errorCount w2 name + (int (clock w3) - int (clock w2)) < 2 ^ 63 \<Longrightarrow>
          0 \<le> errorCount w3 name \<and> errorCount w3 name - int (clock w3) \<le> errorCount w2 name - int (clock w2)"
    unfolding onward_def by blast
  have tr: "trace w3 = trace w1 @ (es1 @ es2) \<and> list_all P (es1 @ es2)"
    using t1 t2 by simp
  have bd: "0 \<le> errorCount w3 name \<and> errorCount w3 name - int (clock w3) \<le> errorCount w1 name - int (clock w1)"
    if h: "0 \<le> errorCount w1 name" "errorCount w1 name + (int (clock w3) - int (clock w1)) < 2 ^ 63"
  proof -
    have "errorCount w1 name + (int (clock w2) - int (clock w1)) < 2 ^ 63" using h(2) c2 by linarith
    from b1[OF h(1) this] have m: "0 \<le> errorCount w2 name"
      "errorCount w2 name - int (clock w2) \<le> errorCount w1 name - int (clock w1)"
      by simp_all
    have "errorCount w2 name + (int (clock w3) - int (clock w2)) < 2 ^ 63" using h(2) m(2) by linarith
    from b2[OF m(1) this] show ?thesis using m(2) by linarith
  qed
  show ?thesis
    unfolding onward_def
  proof (intro conjI allI impI)
    show "clock w1 \<le> clock w3" using c1 c2 by simp
    show "\<exists>es. trace w3 = trace w1 @ es \<and> list_all P es" using tr by blast
    show "measurementInterval w3 = measurementInterval w1" using k1 k2 by simp
    show "globalConfig w3 = globalConfig w1" using k1 k2 by simp
    show "bleDevice w3 = bleDevice w1" using k1 k2 by simp
    show "deviceResetNeeded w3 = 1" if "deviceResetNeeded w1 = 1" using that k1 k2 by simp
    show "errorsPerDevice w3 n = errorsPerDevice w1 n" if "n \<noteq> name" for n
      using that o1 o2 by simp
    show "0 \<le> errorCount w3 name"
      if "0 \<le> errorCount w1 name \<and> errorCount w1 name + (int (clock w3) - int (clock w1)) < 2 ^ 63"
      using that bd by blast
    show "errorCount w3 name - int (clock w3) \<le> errorCount w1 name - int (clock w1)"
      if "0 \<le> errorCount w1 name \<and> errorCount w1 name + (int (clock w3) - int (clock w1)) < 2 ^ 63"
      using that bd by blast
  qed
qed

lemma list_all_weaken: "list_all P es \<Longrightarrow> (\<And>e. P e \<Longrightarrow> Q e) \<Longrightarrow> list_all Q es"
  by (induction es) simp_all

lemma onward_mono:
  assumes pq: "\<And>e. P e \<Longrightarrow> Q e" and a: "onward P name w w'"
  shows "onward Q name w w'"
proof -
  from a obtain es where t: "trace w' = trace w @ es" "list_all P es"
    unfolding onward_def by blast
  from t(2) pq have "list_all Q es" by (rule list_all_weaken)
  with t(1) have "\<exists>es. trace w' = trace w @ es \<and> list_all Q es" by blast
  with a show ?thesis unfolding onward_def by simp
qed

lemma onward_any: "onward P name w w' \<Longrightarrow> onward anyEvent name w w'"
  by (rule onward_mono[where P = P]) (simp_all add: anyEvent_def)

lemma onward_failure:
  assumes e: "P e" and c: "clock w1 = Suc (clock w)" and t: "trace w1 = trace w @ [e]"
    and m: "errorsPerDevice w1 = errorsPerDevice w"
    and k: "measurementInterval w1 = measurementInterval w" "globalConfig w1 = globalConfig w"
      "bleDevice w1 = bleDevice w" "deviceResetNeeded w1 = deviceResetNeeded w"
  shows "onward P (Name d) w (snd (trackError d msg l w1))"
proof -
  let ?w' = "snd (trackError d msg l w1)"
  have c': "clock ?w' = Suc (clock w)"
    by (simp add: trackError_eq IncrementErrors_simps slog_def c)
  have t': "trace ?w' = trace w @ [e]"
    by (simp add: trackError_eq IncrementErrors_simps slog_def t)
  have m': "errorsPerDevice ?w' = (errorsPerDevice w)(Name d \<mapsto> incr (errorCount w (Name d)))"
    by (simp add: trackError_eq IncrementErrors_simps slog_def m errorCount_def)
  have k': "measurementInterval ?w' = measurementInterval w" "globalConfig ?w' = globalConfig w"
      "bleDevice ?w' = bleDevice w"
    by (simp_all add: trackError_eq IncrementErrors_simps slog_def k)
  have f': "deviceResetNeeded w = 1 \<longrightarrow> deviceResetNeeded ?w' = 1"
    by (simp add: trackError_eq IncrementErrors_simps slog_def k)
  have v: "errorCount ?w' (Name d) = incr (errorCount w (Name d))"
    by (simp add: errorCount_def m')
  show ?thesis
    unfolding onward_def
  proof (intro conjI allI impI)
    show "clock w \<le> clock ?w'" by (simp add: c')
    show "\<exists>es. trace ?w' = trace w @ es \<and> list_all P es" using t' e by simp
    show "measurementInterval ?w' = measurementInterval w" by (rule k')
    show "globalConfig ?w' = globalConfig w" by (rule k')
    show "bleDevice ?w' = bleDevice w" by (rule k')
    show "deviceResetNeeded ?w' = 1" if "deviceResetNeeded w = 1" using that f' by simp
    show "errorsPerDevice ?w' n = errorsPerDevice w n" if "n \<noteq> Name d" for n
      using that by (simp add: m')
    assume h: "0 \<le> errorCount w (Name d) \<and> errorCount w (Name d) + (int (clock ?w') - int (clock w)) < 2 ^ 63"
    then have "errorCount w (Name d) + 1 < 2 ^ 63" by (simp add: c')
    with h have x: "incr (errorCount w (Name d)) = errorCount w (Name d) + 1"
      by (simp add: incr_exact)
    show "0 \<le> errorCount ?w' (Name d)" using h by (simp add: v x)
    show "errorCount ?w' (Name d) - int (clock ?w') \<le> errorCount w (Name d) - int (clock w)"
      by (simp add: v x c')
  qed
qed

lemma pwr_loop_onward:
  assumes p: "\<And>b. P (EvSleep b)"
    and succ: "\<And>s s2. action s = (None, s2) \<Longrightarrow> onward P name (snd s) (snd s2)"
    and fail: "\<And>s e s2. action s = (Some e, s2) \<Longrightarrow>
                 onward P name (snd s) (snd (afterFailure onError e s2))"
  shows "nat (maxRetries - retry) = n \<Longrightarrow>
    onward P name (snd s)
      (snd (snd (performWithRetry_loop d op maxRetries action onError retry backoff s)))"
proof (induction n arbitrary: retry backoff s)
  case 0
  then have "\<not> retry < maxRetries" by simp
  then show ?case by (simp add: pwr_done onward_refl)
next
  case (Suc n)
  then have lt: "retry < maxRetries" by simp
  let ?s1 = "beforeAttempt retry backoff s"
  have b: "onward P name (snd s) (snd ?s1)"
  proof (cases "retry > 0")
    case True
    have "onward P name (snd s) (timeSleep backoff (slog LevelInfo ''Retrying operation'' (snd s)))"
      by (rule onward_event[where e = "EvSleep backoff"])
         (simp_all add: p timeSleep_def emit_def slog_def)
    then show ?thesis using True by (simp add: beforeAttempt_def)
  next
    case False
    then show ?thesis by (simp add: beforeAttempt_def onward_refl)
  qed
  obtain r s2 where a: "action ?s1 = (r, s2)" by (cases "action ?s1")
  show ?case
  proof (cases r)
    case None
    have "performWithRetry_loop d op maxRetries action onError retry backoff s = (True, s2)"
      using lt a None by (simp add: pwr_unfold)
    moreover have "onward P name (snd ?s1) (snd s2)" using a None by (simp add: succ)
    ultimately show ?thesis using b by (simp add: onward_trans[OF b])
  next
    case (Some e)
    let ?s3 = "afterFailure onError e s2"
    have res: "performWithRetry_loop d op maxRetries action onError retry backoff s =
       performWithRetry_loop d op maxRetries action onError (retry + 1) (nextBackoff retry backoff) ?s3"
      using lt a Some by (simp add: pwr_unfold)
    have m: "nat (maxRetries - (retry + 1)) = n" using Suc.prems by simp
    have f: "onward P name (snd ?s1) (snd ?s3)" using a Some by (simp add: fail)
    have ih: "onward P name (snd ?s3)
        (snd (snd (performWithRetry_loop d op maxRetries action onError (retry + 1)
                     (nextBackoff retry backoff) ?s3)))"
      by (rule Suc.IH[OF m])
    show ?thesis unfolding res by (rule onward_trans[OF onward_trans[OF b f] ih])
  qed
qed

lemma tracked_retry_onward:
  assumes p: "\<And>b. P (EvSleep b)"
    and act: "\<And>l w. snd (snd (action (l, w))) = emit (ev w) (tick w)"
    and pe: "\<And>w. P (ev w)"
    and h: "\<And>e l w. snd (onError e (l, w)) = snd (trackError d msg 0 w)"
  shows "onward P (Name d) (snd s)
           (snd (snd (performWithRetry d op maxRetries action (Some onError) s)))"
  unfolding performWithRetry_def
proof (rule pwr_loop_onward[where P = P and name = "Name d", OF _ _ _ refl])
  show "P (EvSleep b)" for b by (rule p)
next
  fix s s2 :: "'a \<times> world"
  assume a: "action s = (None, s2)"
  obtain l w where s: "s = (l, w)" by (cases s)
  from act[of l w] a s have "snd s2 = emit (ev w) (tick w)" by simp
  then show "onward P (Name d) (snd s) (snd s2)"
    using pe[of w] s by (simp add: onward_event[where e = "ev w"] emit_def tick_def)
next
  fix s s2 :: "'a \<times> world" and e
  assume a: "action s = (Some e, s2)"
  obtain l w where s: "s = (l, w)" by (cases s)
  obtain l2 w2 where s2: "s2 = (l2, w2)" by (cases s2)
  from act[of l w] a s s2 have w2: "w2 = emit (ev w) (tick w)" by simp
  have "onward P (Name d) w (snd (trackError d msg 0 w2))"
    by (rule onward_failure[where e = "ev w"]) (simp_all add: pe w2 emit_def tick_def)
  then show "onward P (Name d) (snd s) (snd (afterFailure (Some onError) e s2))"
    by (simp add: afterFailure_def s s2 h)
qed

lemma inner_simps:
  "inner (EvSleep b)" "inner (EvDial a r)" "inner (EvDiscoverProfile r)"
  "inner (EvWriteCharacteristic h bs r)" "inner (EvSubscribe h r)" "inner (EvUnsubscribe h r)"
  "\<not> inner EvLock" "\<not> inner EvUnlock" "\<not> inner (EvCancelConnection r)"
  by (simp_all add: inner_def)

lemma discoveryEvent_simps:
  "discoveryEvent (EvSleep b)" "discoveryEvent (EvDiscoverProfile r)"
  by (simp_all add: discoveryEvent_def)

lemma subscribe_onward:
  assumes p: "\<And>b. P (EvSleep b)" and q: "\<And>h r. P (EvSubscribe h r)"
  shows "onward P (Name d) w (snd (subscribeToCharacteristic hw d c n w))"
proof -
  let ?w0 = "slog LevelInfo ''Subscribing to characteristic'' w"
  let ?act = "\<lambda>(localErrors, w'). case clientSubscribe hw c w' of (err, w'') \<Rightarrow> (err, localErrors, w'')"
  let ?h = "\<lambda>err (localErrors, w'). trackError d ''Subscribe error'' localErrors w'"
  let ?r = "performWithRetry d ''subscription'' n ?act (Some ?h) (0, ?w0)"
  have a: "onward P (Name d) w ?w0" by (rule onward_quiet) (simp_all add: slog_def)
  have "onward P (Name d) (snd (0::int, ?w0)) (snd (snd ?r))"
    by (rule tracked_retry_onward[where P = P and msg = "''Subscribe error''"
          and ev = "\<lambda>w. EvSubscribe (Handle c) (hwSubscribe hw (clock w))"])
       (simp_all add: p q clientSubscribe_def Let_def trackError_eq)
  then have b: "onward P (Name d) ?w0 (snd (snd ?r))" by simp
  have c: "onward P (Name d) (snd (snd ?r)) (snd (subscribeToCharacteristic hw d c n w))"
    by (rule onward_quiet)
       (simp_all add: subscribeToCharacteristic_def Let_def slog_def split: prod.splits)
  from onward_trans[OF onward_trans[OF a b] c] show ?thesis .
qed

lemma unsubscribe_onward:
  assumes p: "\<And>b. P (EvSleep b)" and q: "\<And>h r. P (EvUnsubscribe h r)"
  shows "onward P (Name d) w (snd (unsubscribeFromCharacteristic hw d c n w))"
proof -
  let ?w0 = "slog LevelInfo ''Unsubscribing from characteristic'' w"
  let ?act = "\<lambda>(localErrors, w'). case clientUnsubscribe hw c w' of (err, w'') \<Rightarrow> (err, localErrors, w'')"
  let ?h = "\<lambda>err (localErrors, w'). trackError d ''Unsubscribe error'' localErrors w'"
  let ?r = "performWithRetry d ''unsubscription'' n ?act (Some ?h) (0, ?w0)"
  have a: "onward P (Name d) w ?w0" by (rule onward_quiet) (simp_all add: slog_def)
  have "onward P (Name d) (snd (0::int, ?w0)) (snd (snd ?r))"
    by (rule tracked_retry_onward[where P = P and msg = "''Unsubscribe error''"
          and ev = "\<lambda>w. EvUnsubscribe (Handle c) (hwUnsubscribe hw (clock w))"])
       (simp_all add: p q clientUnsubscribe_def Let_def trackError_eq)
  then have b: "onward P (Name d) ?w0 (snd (snd ?r))" by simp
  have c: "onward P (Name d) (snd (snd ?r)) (snd (unsubscribeFromCharacteristic hw d c n w))"
    by (rule onward_quiet)
       (simp_all add: unsubscribeFromCharacteristic_def Let_def slog_def split: prod.splits)
  from onward_trans[OF onward_trans[OF a b] c] show ?thesis .
qed

lemma ResetErrors_onward: "onward P name w (ResetErrors name w)"
  unfolding onward_def by (simp add: ResetErrors_def errorCount_def)

lemma discover_onward:
  assumes p: "\<And>b. P (EvSleep b)" and q: "\<And>r. P (EvDiscoverProfile r)"
  shows "onward P (Name d) w (snd (discoverDeviceProfile hw d n w))"
proof -
  let ?w0 = "slog LevelInfo ''Discovering device profile'' w"
  let ?act = "\<lambda>((p, localErrors), w'). case clientDiscoverProfile hw w' of
                              (Inl e, w'') \<Rightarrow> (Some e, (None, localErrors), w'')
                            | (Inr p', w'') \<Rightarrow> (None, (Some p', localErrors), w'')"
  let ?h = "\<lambda>err ((p, localErrors), w').
                       case trackError d ''Discover profile error'' localErrors w' of
                         (localErrors1, w'') \<Rightarrow> ((p, localErrors1), w'')"
  let ?r = "performWithRetry d ''profile discovery'' n ?act (Some ?h) ((None, 0), ?w0)"
  have a: "onward P (Name d) w ?w0" by (rule onward_quiet) (simp_all add: slog_def)
  have "onward P (Name d) (snd ((None :: profile option, 0::int), ?w0)) (snd (snd ?r))"
    by (rule tracked_retry_onward[where P = P and msg = "''Discover profile error''"
          and ev = "\<lambda>w. EvDiscoverProfile (errOf (hwDiscoverProfile hw (clock w)))"])
       (auto simp add: p q clientDiscoverProfile_def Let_def trackError_eq split: prod.splits sum.splits)
  then have b: "onward P (Name d) ?w0 (snd (snd ?r))" by simp
  have c: "onward P (Name d) (snd (snd ?r)) (snd (discoverDeviceProfile hw d n w))"
  proof -
    obtain ok pr le w1 where r: "?r = (ok, (pr, le), w1)" by (cases ?r) auto
    have e: "snd (discoverDeviceProfile hw d n w) =
        (if ok then (if le = 0 then ResetErrors (Name d) w1 else w1)
         else slog LevelError ''Failed to discover profile after multiple attempts'' w1)"
      by (simp add: discoverDeviceProfile_def Let_def r)
    have q: "onward P (Name d) w1 (slog LevelError ''Failed to discover profile after multiple attempts'' w1)"
      by (rule onward_quiet) (simp_all add: slog_def)
    have w1: "snd (snd ?r) = w1" by (simp add: r)
    have "onward P (Name d) w1 (snd (discoverDeviceProfile hw d n w))"
      unfolding e using q by (simp add: onward_refl ResetErrors_onward)
    then show ?thesis by (simp only: w1)
  qed
  from onward_trans[OF onward_trans[OF a b] c] show ?thesis .
qed

lemma Connect_loop_onward:
  assumes p: "\<And>b. P (EvSleep b)" and q: "\<And>a r. P (EvDial a r)"
  shows "nat (maxRetries - retry) = n \<Longrightarrow>
    onward P name w (snd (Connect_loop hw d maxRetries retry backoff err w))"
proof (induction n arbitrary: retry backoff err w)
  case 0
  then have "\<not> retry < maxRetries" by simp
  then show ?case by (simp add: Connect_loop_done onward_refl)
next
  case (Suc n)
  then have lt: "retry < maxRetries" by simp
  let ?w1 = "beforeDial retry backoff w"
  have b: "onward P name w ?w1"
  proof (cases "retry > 0")
    case True
    have "onward P name w (timeSleep backoff (slog LevelInfo ''Retrying connection'' w))"
      by (rule onward_event[where e = "EvSleep backoff"])
         (simp_all add: p timeSleep_def emit_def slog_def)
    then show ?thesis using True by (simp add: beforeDial_def)
  next
    case False
    then show ?thesis by (simp add: beforeDial_def onward_refl)
  qed
  obtain r w2 where h: "hostDial hw (Addr d) ?w1 = (r, w2)" by (cases "hostDial hw (Addr d) ?w1")
  have c: "onward P name ?w1 w2"
    by (rule onward_event[where e = "EvDial (Addr d) (hwDial hw (clock ?w1))"])
       (use h in \<open>auto simp add: q hostDial_def Let_def emit_def tick_def\<close>)
  show ?case
  proof (cases r)
    case None
    then have "Connect_loop hw d maxRetries retry backoff err w = (None, w2)"
      using lt h by (simp add: Connect_loop_unfold)
    then show ?thesis using onward_trans[OF b c] by simp
  next
    case (Some e)
    let ?w3 = "slog LevelInfo ''Connection error'' w2"
    have res: "Connect_loop hw d maxRetries retry backoff err w =
       Connect_loop hw d maxRetries (retry + 1) (nextBackoff retry backoff) (Some e) ?w3"
      using lt Some h by (simp add: Connect_loop_unfold)
    have m: "nat (maxRetries - (retry + 1)) = n" using Suc.prems by simp
    have f: "onward P name w2 ?w3" by (rule onward_quiet) (simp_all add: slog_def)
    have ih: "onward P name ?w3
        (snd (Connect_loop hw d maxRetries (retry + 1) (nextBackoff retry backoff) (Some e) ?w3))"
      by (rule Suc.IH[OF m])
    show ?thesis unfolding res
      by (rule onward_trans[OF onward_trans[OF onward_trans[OF b c] f] ih])
  qed
qed

lemma connectToDevice_onward:
  assumes p: "\<And>b. P (EvSleep b)" and q: "\<And>a r. P (EvDial a r)"
  shows "onward P name w (snd (connectToDevice hw d w))"
proof -
  let ?w0 = "slog LevelInfo ''Connecting to device'' w"
  let ?w1 = "snd (Connect hw d ?w0)"
  have a: "onward P name w ?w0" by (rule onward_quiet) (simp_all add: slog_def)
  have b: "onward P name ?w0 ?w1"
    unfolding Connect_def by (rule Connect_loop_onward[where P = P, OF _ _ refl]) (simp_all add: p q)
  have c: "onward P name ?w1 (snd (connectToDevice hw d w))"
    by (rule onward_quiet)
       (simp_all add: connectToDevice_def Let_def slog_def split: prod.splits)
  from onward_trans[OF onward_trans[OF a b] c] show ?thesis .
qed

lemma handlerPublisher_frame:
  "clock (handlerPublisher name req w) = clock w"
  "trace (handlerPublisher name req w) = trace w"
  "errorsPerDevice (handlerPublisher name req w) = errorsPerDevice w"
  "deviceResetNeeded (handlerPublisher name req w) = deviceResetNeeded w"
  "measurementInterval (handlerPublisher name req w) = measurementInterval w"
  "globalConfig (handlerPublisher name req w) = globalConfig w"
  "bleDevice (handlerPublisher name req w) = bleDevice w"
  "deviceErrorsCounter (handlerPublisher name req w) = deviceErrorsCounter w"
  by (simp_all add: handlerPublisher_def Unmarshall_def Let_def slog_def)

lemma deliverNotifications_frame:
  "clock (deliverNotifications hw name w) = Suc (clock w)"
  "trace (deliverNotifications hw name w) = trace w"
  "errorsPerDevice (deliverNotifications hw name w) = errorsPerDevice w"
  "deviceResetNeeded (deliverNotifications hw name w) = deviceResetNeeded w"
  "measurementInterval (deliverNotifications hw name w) = measurementInterval w"
  "globalConfig (deliverNotifications hw name w) = globalConfig w"
  "bleDevice (deliverNotifications hw name w) = bleDevice w"
  "deviceErrorsCounter (deliverNotifications hw name w) = deviceErrorsCounter w"
proof -
  have "clock (foldl (\<lambda>w' req. handlerPublisher name req w') v rs) = clock v
      \<and> trace (foldl (\<lambda>w' req. handlerPublisher name req w') v rs) = trace v
      \<and> errorsPerDevice (foldl (\<lambda>w' req. handlerPublisher name req w') v rs) = errorsPerDevice v
      \<and> deviceResetNeeded (foldl (\<lambda>w' req. handlerPublisher name req w') v rs) = deviceResetNeeded v
      \<and> measurementInterval (foldl (\<lambda>w' req. handlerPublisher name req w') v rs) = measurementInterval v
      \<and> globalConfig (foldl (\<lambda>w' req. handlerPublisher name req w') v rs) = globalConfig v
      \<and> bleDevice (foldl (\<lambda>w' req. handlerPublisher name req w') v rs) = bleDevice v
      \<and> deviceErrorsCounter (foldl (\<lambda>w' req. handlerPublisher name req w') v rs) = deviceErrorsCounter v"
    for v rs
    by (induction rs arbitrary: v) (simp_all add: handlerPublisher_frame)
  then show "clock (deliverNotifications hw name w) = Suc (clock w)"
    "trace (deliverNotifications hw name w) = trace w"
    "errorsPerDevice (deliverNotifications hw name w) = errorsPerDevice w"
    "deviceResetNeeded (deliverNotifications hw name w) = deviceResetNeeded w"
    "measurementInterval (deliverNotifications hw name w) = measurementInterval w"
    "globalConfig (deliverNotifications hw name w) = globalConfig w"
    "bleDevice (deliverNotifications hw name w) = bleDevice w"
    "deviceErrorsCounter (deliverNotifications hw name w) = deviceErrorsCounter w"
    by (simp_all add: deliverNotifications_def tick_def)
qed

lemma pub_onward:
  assumes q: "\<And>r. P (EvDiscoverProfile r)" and u: "\<And>h b r. P (EvWriteCharacteristic h b r)"
  shows "onward P name w (pub hw d c b w)"
proof -
  let ?w0 = "slog LevelInfo ''Publishing'' w"
  let ?w1 = "snd (clientDiscoverProfile hw ?w0)"
  have a: "onward P name w ?w0" by (rule onward_quiet) (simp_all add: slog_def)
  have b: "onward P name ?w0 ?w1"
    by (rule onward_event[where e = "EvDiscoverProfile (errOf (hwDiscoverProfile hw (clock ?w0)))"])
       (simp_all add: q clientDiscoverProfile_def Let_def emit_def tick_def)
  have c: "onward P name ?w1 (pub hw d c b w)"
  proof (cases "hwDiscoverProfile hw (clock w)")
    case (Inl e)
    then have "pub hw d c b w = ?w1"
      by (simp add: pub_def clientDiscoverProfile_def Let_def slog_def)
    then show ?thesis by (simp add: onward_refl)
  next
    case (Inr p)
    show ?thesis
    proof (cases "Find p c")
      case None
      then have "pub hw d c b w = ?w1"
        using Inr by (simp add: pub_def clientDiscoverProfile_def Let_def slog_def)
      then show ?thesis by (simp add: onward_refl)
    next
      case (Some ch)
      let ?w2 = "snd (clientWriteCharacteristic hw ch b ?w1)"
      have x: "onward P name ?w1 ?w2"
        by (rule onward_event[where e = "EvWriteCharacteristic (Handle ch) b (hwWriteCharacteristic hw (clock ?w1))"])
           (simp_all add: u clientWriteCharacteristic_def Let_def emit_def tick_def)
      have e: "pub hw d c b w =
          (if fst (clientWriteCharacteristic hw ch b ?w1) \<noteq> None
           then slog LevelError ''Error writing characteristic'' ?w2 else ?w2)"
        using Inr Some
        by (simp add: pub_def clientDiscoverProfile_def Let_def slog_def split: prod.splits)
      have y: "onward P name ?w2 (pub hw d c b w)"
        unfolding e by (rule onward_quiet) (simp_all add: slog_def)
      from onward_trans[OF x y] show ?thesis .
    qed
  qed
  from onward_trans[OF onward_trans[OF a b] c] show ?thesis .
qed

lemma readSensorData_unusable:
  assumes "fst (fst (discoverDeviceProfile hw d 3 (slog LevelInfo ''Reading sensor data'' w))) = Some p"
    and "\<not> usable p c"
  shows "readSensorData hw d c w =
           (False, snd (discoverDeviceProfile hw d 3 (slog LevelInfo ''Reading sensor data'' w)))"
  using assms
  by (auto simp add: readSensorData_def usable_def Let_def split: prod.splits option.splits)

lemma readSensorData_no_profile:
  assumes "fst (fst (discoverDeviceProfile hw d 3 (slog LevelInfo ''Reading sensor data'' w))) = None"
  shows "readSensorData hw d c w =
           (False, snd (discoverDeviceProfile hw d 3 (slog LevelInfo ''Reading sensor data'' w)))"
  using assms
  by (auto simp add: readSensorData_def Let_def split: prod.splits option.splits)

lemma readSensorData_onward: "onward inner (Name d) w (snd (readSensorData hw d c w))"
proof -
  let ?w0 = "slog LevelInfo ''Reading sensor data'' w"
  let ?D = "discoverDeviceProfile hw d 3 ?w0"
  let ?w1 = "snd ?D"
  have a: "onward inner (Name d) w ?w0" by (rule onward_quiet) (simp_all add: slog_def)
  have b: "onward inner (Name d) ?w0 ?w1" by (rule discover_onward) (simp_all add: inner_simps)
  note ab = onward_trans[OF a b]
  show ?thesis
  proof (cases "fst (fst ?D)")
    case None
    then show ?thesis using ab by (simp add: readSensorData_no_profile)
  next
    case (Some p)
    show ?thesis
    proof (cases "usable p c")
      case False
      then show ?thesis using ab Some by (simp add: readSensorData_unusable)
    next
      case True
      then obtain ch where ch: "Find p c = Some ch"
        "(Property ch AND CharNotify) \<noteq> 0" "CCCD ch \<noteq> None"
        by (auto simp add: usable_def split: option.splits)
      let ?w2 = "slog LevelInfo ''Registering Temperature|Humidity Handler'' ?w1"
      let ?S = "subscribeToCharacteristic hw d ch 3 ?w2"
      let ?w3 = "snd ?S"
      let ?w4 = "deliverNotifications hw (Name d) (timeSleep (6 * Second) ?w3)"
      let ?w5 = "snd (unsubscribeFromCharacteristic hw d ch 3 ?w4)"
      have e: "snd (readSensorData hw d c w) = (if \<not> fst (fst ?S) then ?w3 else ?w5)"
        using Some ch
        by (auto simp add: readSensorData_def Let_def split: prod.splits option.splits)
      have c: "onward inner (Name d) ?w1 ?w2" by (rule onward_quiet) (simp_all add: slog_def)
      have s: "onward inner (Name d) ?w2 ?w3" by (rule subscribe_onward) (simp_all add: inner_simps)
      have t: "onward inner (Name d) ?w3 (timeSleep (6 * Second) ?w3)"
        by (rule onward_event[where e = "EvSleep (6 * Second)"])
           (simp_all add: timeSleep_def emit_def inner_simps)
      have n: "onward inner (Name d) (timeSleep (6 * Second) ?w3) ?w4"
        by (rule onward_quiet) (simp_all add: deliverNotifications_frame)
      have u: "onward inner (Name d) ?w4 ?w5" by (rule unsubscribe_onward) (simp_all add: inner_simps)
      note to3 = onward_trans[OF onward_trans[OF ab c] s]
      note to5 = onward_trans[OF onward_trans[OF onward_trans[OF to3 t] n] u]
      show ?thesis unfolding e using to3 to5 by simp
    qed
  qed
qed

lemma handleDeviceOperation_results:
  "fst (handleDeviceOperation hw d w) =
     (fst (readSensorData hw d (characteristix 36)
            (slog LevelInfo ''Subscribing''
              (pub hw d (characteristix 38) [0x01, 0x00] (slog LevelInfo ''Publishing'' w)))),
      None)"
  by (simp add: handleDeviceOperation_def Let_def split: prod.splits)

lemma handleDeviceOperation_steps:
  "\<exists>w2. onward inner (Name d) w w2
      \<and> onward anyEvent (Name d) w2 (snd (handleDeviceOperation hw d w))
      \<and> trace (snd (handleDeviceOperation hw d w)) =
          trace w2 @ [EvCancelConnection (hwCancelConnection hw (clock w2))]"
proof -
  let ?wa = "slog LevelInfo ''Publishing'' w"
  let ?w1 = "pub hw d (characteristix 38) [0x01, 0x00] ?wa"
  let ?wb = "slog LevelInfo ''Subscribing'' ?w1"
  let ?w2 = "snd (readSensorData hw d (characteristix 36) ?wb)"
  let ?w' = "snd (handleDeviceOperation hw d w)"
  have a: "onward inner (Name d) w ?wa" by (rule onward_quiet) (simp_all add: slog_def)
  have b: "onward inner (Name d) ?wa ?w1" by (rule pub_onward) (simp_all add: inner_simps)
  have c: "onward inner (Name d) ?w1 ?wb" by (rule onward_quiet) (simp_all add: slog_def)
  have e: "onward inner (Name d) ?wb ?w2" by (rule readSensorData_onward)
  note o = onward_trans[OF onward_trans[OF onward_trans[OF a b] c] e]
  have t: "trace ?w' = trace ?w2 @ [EvCancelConnection (hwCancelConnection hw (clock ?w2))]"
    by (simp add: handleDeviceOperation_def Disconnect_def clientCancelConnection_def Let_def
          slog_def emit_def tick_def split: prod.splits)
  have f: "onward anyEvent (Name d) ?w2 ?w'"
    by (rule onward_event[where e = "EvCancelConnection (hwCancelConnection hw (clock ?w2))"])
       (simp_all add: anyEvent_def handleDeviceOperation_def Disconnect_def clientCancelConnection_def
          Let_def slog_def emit_def tick_def split: prod.splits)
  from o f t show ?thesis by blast
qed

section \<open>One poll cycle\<close>

lemma connectToDevice_eval:
  "connectToDevice hw d w =
     (case hwDial hw (clock w) of
        None \<Rightarrow> (True, emit (EvDial (Addr d) None) (tick (slog LevelInfo ''Connecting to device'' w)))
      | Some e0 \<Rightarrow>
          (case hwDial hw (Suc (clock w)) of
             None \<Rightarrow> (True, snd (connectToDevice hw d w))
           | Some e1 \<Rightarrow>
               (case hwDial hw (Suc (Suc (clock w))) of
                  None \<Rightarrow> (True, snd (connectToDevice hw d w))
                | Some e2 \<Rightarrow> (False, snd (connectToDevice hw d w)))))"
  by (simp add: connectToDevice_def Connect_def Connect_loop_unfold Connect_loop_done
        beforeDial_def nextBackoff_def hostDial_def Let_def tick_def emit_def slog_def timeSleep_def
      split: option.splits)

lemma connected_iff:
  "fst (connectToDevice hw d w) =
     (hwDial hw (clock w) = None \<or> hwDial hw (Suc (clock w)) = None
      \<or> hwDial hw (Suc (Suc (clock w))) = None)"
  by (subst connectToDevice_eval) (simp split: option.splits)

lemma connected_trace:
  assumes "fst (connectToDevice hw d w)"
  shows "\<exists>es. trace (snd (connectToDevice hw d w)) = trace w @ es @ [EvDial (Addr d) None]
            \<and> list_all inner es"
proof -
  consider (a) "hwDial hw (clock w) = None"
    | (b) e0 where "hwDial hw (clock w) = Some e0" "hwDial hw (Suc (clock w)) = None"
    | (c) e0 e1 where "hwDial hw (clock w) = Some e0" "hwDial hw (Suc (clock w)) = Some e1"
        "hwDial hw (Suc (Suc (clock w))) = None"
    using assms unfolding connected_iff by (cases "hwDial hw (clock w)"; cases "hwDial hw (Suc (clock w))") auto
  then show ?thesis
  proof cases
    case a
    then have "trace (snd (connectToDevice hw d w)) = trace w @ [] @ [EvDial (Addr d) None]"
      by (simp add: connectToDevice_def Connect_def Connect_loop_unfold Connect_loop_done
        beforeDial_def nextBackoff_def hostDial_def Let_def tick_def emit_def slog_def timeSleep_def)
    then show ?thesis by (intro exI[of _ "[]"]) simp
  next
    case b
    then have "trace (snd (connectToDevice hw d w)) =
        trace w @ [EvDial (Addr d) (Some e0), EvSleep (1 * Second)] @ [EvDial (Addr d) None]"
      by (simp add: connectToDevice_def Connect_def Connect_loop_unfold Connect_loop_done
        beforeDial_def nextBackoff_def hostDial_def Let_def tick_def emit_def slog_def timeSleep_def)
    then show ?thesis
      by (intro exI[of _ "[EvDial (Addr d) (Some e0), EvSleep (1 * Second)]"]) (simp add: inner_simps)
  next
    case c
    then have "trace (snd (connectToDevice hw d w)) =
        trace w @ [EvDial (Addr d) (Some e0), EvSleep (1 * Second),
                   EvDial (Addr d) (Some e1), EvSleep (mul64 (1 * Second) 3)] @ [EvDial (Addr d) None]"
      by (simp add: connectToDevice_def Connect_def Connect_loop_unfold Connect_loop_done
        beforeDial_def nextBackoff_def hostDial_def Let_def tick_def emit_def slog_def timeSleep_def)
    then show ?thesis
      by (intro exI[of _ "[EvDial (Addr d) (Some e0), EvSleep (1 * Second),
                   EvDial (Addr d) (Some e1), EvSleep (mul64 (1 * Second) 3)]"]) (simp add: inner_simps)
  qed
qed

lemma acquired_frame:
  "clock (acquired w) = clock w" "trace (acquired w) = trace w @ [EvLock]"
  by (simp_all add: acquired_def slog_def emit_def)

lemma acquired_onward: "onward anyEvent name w (acquired w)"
  by (rule onward_event[where e = EvLock]) (simp_all add: acquired_def slog_def emit_def anyEvent_def)

lemma pollOperate_eq:
  "pollOperate hw d cf w =
     (if \<not> fst (connectToDevice hw d (acquired w)) then
        ((False, False, incr cf), snd (connectToDevice hw d (acquired w)))
      else if fst (fst (handleDeviceOperation hw d (snd (connectToDevice hw d (acquired w))))) then
        ((True, False, 0), snd (handleDeviceOperation hw d (snd (connectToDevice hw d (acquired w)))))
      else
        ((False, False, incr cf),
         snd (handleDeviceOperation hw d (snd (connectToDevice hw d (acquired w))))))"
proof -
  obtain c w1 where c: "connectToDevice hw d (acquired w) = (c, w1)"
    by (cases "connectToDevice hw d (acquired w)")
  obtain ds e w2 where h: "handleDeviceOperation hw d w1 = ((ds, e), w2)"
    by (cases "handleDeviceOperation hw d w1") auto
  have e: "e = None" using handleDeviceOperation_results[of hw d w1] h by simp
  show ?thesis
    using c h e unfolding acquired_def by (simp add: pollOperate_def Let_def)
qed

lemma pollOperate_onward: "onward anyEvent (Name d) w (snd (pollOperate hw d cf w))"
proof -
  let ?w1 = "snd (connectToDevice hw d (acquired w))"
  have a: "onward anyEvent (Name d) w (acquired w)" by (rule acquired_onward)
  have b: "onward anyEvent (Name d) (acquired w) ?w1"
    by (rule connectToDevice_onward) (simp_all add: anyEvent_def)
  from handleDeviceOperation_steps[of d ?w1 hw] obtain w2 where
    "onward inner (Name d) ?w1 w2" "onward anyEvent (Name d) w2 (snd (handleDeviceOperation hw d ?w1))"
    by blast
  then have c: "onward anyEvent (Name d) ?w1 (snd (handleDeviceOperation hw d ?w1))"
    using onward_trans[OF onward_any] by blast
  show ?thesis
    unfolding pollOperate_eq
    using onward_trans[OF a b] onward_trans[OF onward_trans[OF a b] c] by simp
qed

lemma pollOperate_connected:
  assumes "fst (connectToDevice hw d (acquired w))"
  shows "\<exists>es r. trace (snd (pollOperate hw d cf w)) = trace w @ [EvLock] @ es @ [EvCancelConnection r]
            \<and> list_all inner es \<and> EvDial (Addr d) None \<in> set es"
proof -
  let ?w1 = "snd (connectToDevice hw d (acquired w))"
  from connected_trace[OF assms] obtain es1 where
    t1: "trace ?w1 = trace (acquired w) @ es1 @ [EvDial (Addr d) None]" "list_all inner es1"
    by blast
  from handleDeviceOperation_steps[of d ?w1 hw] obtain w2 where
    o: "onward inner (Name d) ?w1 w2"
    and t: "trace (snd (handleDeviceOperation hw d ?w1)) =
             trace w2 @ [EvCancelConnection (hwCancelConnection hw (clock w2))]"
    by blast
  from o obtain es2 where t2: "trace w2 = trace ?w1 @ es2" "list_all inner es2"
    unfolding onward_def by blast
  have w': "snd (pollOperate hw d cf w) = snd (handleDeviceOperation hw d ?w1)"
    using assms by (simp add: pollOperate_eq)
  have "trace (snd (pollOperate hw d cf w)) =
      trace w @ [EvLock] @ (es1 @ [EvDial (Addr d) None] @ es2)
        @ [EvCancelConnection (hwCancelConnection hw (clock w2))]"
    by (simp add: w' t t2 t1 acquired_frame)
  moreover have "list_all inner (es1 @ [EvDial (Addr d) None] @ es2)"
    using t1 t2 by (simp add: inner_simps)
  moreover have "EvDial (Addr d) None \<in> set (es1 @ [EvDial (Addr d) None] @ es2)" by simp
  ultimately show ?thesis by blast
qed


lemma sdiv_5_2: "(5::int) sdiv 2 = 2"
  by (simp add: signed_divide_int_def)

lemma pollCycle_eq:
  assumes p: "pollOperate hw d cf w = ((s, cr, f), w1)"
  shows "fst (pollCycle hw d cf c w) = (if 5 \<le> f then 2 else f)"
    and "deviceResetNeeded (snd (pollCycle hw d cf c w)) =
           (if c = Clears then 0 else if 3 \<le> f \<or> cr then 1 else deviceResetNeeded w1)"
    and "trace (snd (pollCycle hw d cf c w)) =
           trace w1 @ [EvUnlock]
           @ (if (3 \<le> f \<or> cr) \<and> c = Idle then [EvSleep (10 * Second)] else [])
           @ [EvSleep (calculateWaitTime s w1)]"
    and "clock (snd (pollCycle hw d cf c w)) = clock w1"
    and "errorsPerDevice (snd (pollCycle hw d cf c w)) = errorsPerDevice w1"
    and "measurementInterval (snd (pollCycle hw d cf c w)) = measurementInterval w1"
    and "globalConfig (snd (pollCycle hw d cf c w)) = globalConfig w1"
    and "bleDevice (snd (pollCycle hw d cf c w)) = bleDevice w1"
    and "requests (snd (pollCycle hw d cf c w)) = requests w1 + (if 3 \<le> f \<or> cr then 1 else 0)"
proof -
  note ev = pollCycle_def p Let_def checkForResetNeeds_def RequestBLEDeviceReset_def
    IsBLEDeviceResetRequested_def ClearBLEDeviceResetRequest_def interfere_def
    slog_def emit_def timeSleep_def
  show "fst (pollCycle hw d cf c w) = (if 5 \<le> f then 2 else f)"
    by (simp add: pollCycle_def p Let_def sdiv_5_2 checkForResetNeeds_def)
  show "deviceResetNeeded (snd (pollCycle hw d cf c w)) =
           (if c = Clears then 0 else if 3 \<le> f \<or> cr then 1 else deviceResetNeeded w1)"
    by (cases c) (simp_all add: ev)
  show "trace (snd (pollCycle hw d cf c w)) =
           trace w1 @ [EvUnlock]
           @ (if (3 \<le> f \<or> cr) \<and> c = Idle then [EvSleep (10 * Second)] else [])
           @ [EvSleep (calculateWaitTime s w1)]"
    by (cases c) (simp_all add: ev calculateWaitTime_def)
  show "clock (snd (pollCycle hw d cf c w)) = clock w1"
    "errorsPerDevice (snd (pollCycle hw d cf c w)) = errorsPerDevice w1"
    "measurementInterval (snd (pollCycle hw d cf c w)) = measurementInterval w1"
    "globalConfig (snd (pollCycle hw d cf c w)) = globalConfig w1"
    "bleDevice (snd (pollCycle hw d cf c w)) = bleDevice w1"
    by (cases c; simp add: ev)+
  show "requests (snd (pollCycle hw d cf c w)) = requests w1 + (if 3 \<le> f \<or> cr then 1 else 0)"
    by (cases c) (simp_all add: ev requests_def)
qed

lemma pollOperate_tuple:
  "pollOperate hw d cf w =
     ((fst (fst (pollOperate hw d cf w)), fst (snd (fst (pollOperate hw d cf w))),
       snd (snd (fst (pollOperate hw d cf w)))), snd (pollOperate hw d cf w))"
  by simp

lemmas pollCycle_proj = pollCycle_eq[OF pollOperate_tuple]

lemma pollCycle_onward: "onward anyEvent (Name d) w (snd (pollCycle hw d cf Idle w))"
proof -
  let ?w1 = "snd (pollOperate hw d cf w)"
  let ?w' = "snd (pollCycle hw d cf Idle w)"
  have a: "onward anyEvent (Name d) w ?w1" by (rule pollOperate_onward)
  have b: "onward anyEvent (Name d) ?w1 ?w'"
    unfolding onward_def
  proof (intro conjI allI impI)
    show "clock ?w1 \<le> clock ?w'" by (simp add: pollCycle_proj)
    show "\<exists>es. trace ?w' = trace ?w1 @ es \<and> list_all anyEvent es"
      by (simp add: pollCycle_proj anyEvent_def)
    show "measurementInterval ?w' = measurementInterval ?w1" by (simp add: pollCycle_proj)
    show "globalConfig ?w' = globalConfig ?w1" by (simp add: pollCycle_proj)
    show "bleDevice ?w' = bleDevice ?w1" by (simp add: pollCycle_proj)
    show "deviceResetNeeded ?w' = 1" if "deviceResetNeeded ?w1 = 1"
      using that by (simp add: pollCycle_proj)
    show "errorsPerDevice ?w' n = errorsPerDevice ?w1 n" for n by (simp add: pollCycle_proj)
    show "0 \<le> errorCount ?w' (Name d)"
      if "0 \<le> errorCount ?w1 (Name d) \<and> errorCount ?w1 (Name d) + (int (clock ?w') - int (clock ?w1)) < 2 ^ 63"
      using that by (simp add: errorCount_def pollCycle_proj)
    show "errorCount ?w' (Name d) - int (clock ?w') \<le> errorCount ?w1 (Name d) - int (clock ?w1)"
      by (simp add: errorCount_def pollCycle_proj)
  qed
  from onward_trans[OF a b] show ?thesis .
qed

lemmas run_simps = pollCycle_def pollOperate_def connectToDevice_def Connect_def
  Connect_loop_unfold Connect_loop_done beforeDial_def nextBackoff_def hostDial_def
  handleDeviceOperation_def pub_def readSensorData_def discoverDeviceProfile_def
  subscribeToCharacteristic_def unsubscribeFromCharacteristic_def
  performWithRetry_def pwr_unfold pwr_done beforeAttempt_def afterFailure_def
  clientDiscoverProfile_def clientWriteCharacteristic_def clientSubscribe_def clientUnsubscribe_def
  clientCancelConnection_def Disconnect_def deliverNotifications_def
  checkForResetNeeds_def IsBLEDeviceResetRequested_def RequestBLEDeviceReset_def
  ClearBLEDeviceResetRequest_def interfere_def
  ResetErrors_def trackError_eq IncrementErrors_simps errorCount_def
  Find_def characteristix_def CharNotify_def errOf_def
  tick_def emit_def slog_def timeSleep_def Let_def
  handlerPublisher_frame incr_small

lemmas example_simps = goodRadio_def sensorChar_def triggerChar_def kitchen_def kitchenWorld_def
  startWorld_def

lemma inner_excludes:
  assumes "list_all inner es"
  shows "EvUnlock \<notin> set es \<and> EvLock \<notin> set es \<and> (\<forall>r. EvCancelConnection r \<notin> set es)"
  using assms by (induction es) (auto simp add: inner_def)

text \<open>
  Claim C9. When one of the (at most three) dials of a poll cycle succeeds, the events of
  the cycle are: the radio lock is taken; then sleeps, dials, discoveries, writes,
  subscriptions and unsubscriptions, among them the successful dial; then the disconnect;
  then the release of the lock; then sleeps. There is no release before the disconnect,
  whatever the calls in between return.
\<close>

theorem disconnect_before_release:
  assumes "hwDial hw (clock w) = None \<or> hwDial hw (Suc (clock w)) = None
           \<or> hwDial hw (Suc (Suc (clock w))) = None"
  shows "\<exists>es r post.
      trace (snd (pollCycle hw d cf c w)) =
        trace w @ [EvLock] @ es @ [EvCancelConnection r, EvUnlock] @ post
    \<and> EvDial (Addr d) None \<in> set es
    \<and> EvUnlock \<notin> set es \<and> EvLock \<notin> set es \<and> (\<forall>r'. EvCancelConnection r' \<notin> set es)
    \<and> EvUnlock \<notin> set post"
proof -
  have c: "fst (connectToDevice hw d (acquired w))"
    using assms by (simp add: connected_iff acquired_frame)
  from pollOperate_connected[OF c, of cf] obtain es r where
    t: "trace (snd (pollOperate hw d cf w)) = trace w @ [EvLock] @ es @ [EvCancelConnection r]"
    and i: "list_all inner es" and dl: "EvDial (Addr d) None \<in> set es"
    by blast
  let ?post = "(if (3 \<le> snd (snd (fst (pollOperate hw d cf w))) \<or> fst (snd (fst (pollOperate hw d cf w))))
            \<and> c = Idle
        then [EvSleep (10 * Second)] else [])
     @ [EvSleep (calculateWaitTime (fst (fst (pollOperate hw d cf w))) (snd (pollOperate hw d cf w)))]"
  have "trace (snd (pollCycle hw d cf c w)) =
      trace w @ [EvLock] @ es @ [EvCancelConnection r, EvUnlock] @ ?post"
    by (simp add: pollCycle_proj t)
  moreover have "EvUnlock \<notin> set ?post" by simp
  ultimately show ?thesis using inner_excludes[OF i] dl by blast
qed

theorem disconnect_before_release_witness:
  "(hwDial goodRadio (clock kitchenWorld) = None \<or> hwDial goodRadio (Suc (clock kitchenWorld)) = None
     \<or> hwDial goodRadio (Suc (Suc (clock kitchenWorld))) = None)
   \<and> (\<exists>es r post.
      trace (snd (pollCycle goodRadio kitchen 0 Idle kitchenWorld)) =
        trace kitchenWorld @ [EvLock] @ es @ [EvCancelConnection r, EvUnlock] @ post
    \<and> EvDial (Addr kitchen) None \<in> set es
    \<and> EvUnlock \<notin> set es \<and> EvLock \<notin> set es \<and> (\<forall>r'. EvCancelConnection r' \<notin> set es)
    \<and> EvUnlock \<notin> set post)"
proof -
  have h: "hwDial goodRadio (clock kitchenWorld) = None \<or> hwDial goodRadio (Suc (clock kitchenWorld)) = None
     \<or> hwDial goodRadio (Suc (Suc (clock kitchenWorld))) = None"
    by (simp add: goodRadio_def)
  from h disconnect_before_release[OF h, of kitchen 0 Idle] show ?thesis by blast
qed




text \<open>
  Claim C10. When profile discovery returns a profile in which the characteristic is
  absent, or has no notify property, or has no CCCD, \<^verbatim>\<open>readSensorData\<close> returns false
  and leaves the world as discovery left it: its only events are those of discovery (one
  successful \<^verbatim>\<open>DiscoverProfile\<close> and a tally of 0 when the first attempt succeeds),
  and the tallies of other devices are untouched. The cycle's data result is that of
  \<^verbatim>\<open>readSensorData\<close>, and a connected cycle whose data result is false leaves
  \<^verbatim>\<open>consecutiveFailures\<close> incremented.
\<close>

theorem unusable_characteristic_fails_cycle:
  assumes d: "fst (fst (discoverDeviceProfile hw d 3 (slog LevelInfo ''Reading sensor data'' w))) = Some p"
    and u: "Find p c = None
            \<or> (\<exists>ch. Find p c = Some ch \<and> ((Property ch AND CharNotify) = 0 \<or> CCCD ch = None))"
  shows "readSensorData hw d c w =
           (False, snd (discoverDeviceProfile hw d 3 (slog LevelInfo ''Reading sensor data'' w)))
       \<and> (\<exists>es. trace (snd (readSensorData hw d c w)) = trace w @ es \<and> list_all discoveryEvent es)
       \<and> (hwDiscoverProfile hw (clock w) = Inr p \<longrightarrow>
            trace (snd (readSensorData hw d c w)) = trace w @ [EvDiscoverProfile None]
          \<and> clock (snd (readSensorData hw d c w)) = Suc (clock w)
          \<and> errorCount (snd (readSensorData hw d c w)) (Name d) = 0)
       \<and> (\<forall>n. n \<noteq> Name d \<longrightarrow> errorsPerDevice (snd (readSensorData hw d c w)) n = errorsPerDevice w n)
       \<and> fst (fst (handleDeviceOperation hw d v)) =
            fst (readSensorData hw d (characteristix 36)
                  (slog LevelInfo ''Subscribing''
                    (pub hw d (characteristix 38) [0x01, 0x00] (slog LevelInfo ''Publishing'' v))))
       \<and> (fst (connectToDevice hw d (acquired v))
            \<and> \<not> fst (fst (handleDeviceOperation hw d (snd (connectToDevice hw d (acquired v))))) \<longrightarrow>
          fst (pollOperate hw d cf v) = (False, False, incr cf))"
proof -
  let ?w0 = "slog LevelInfo ''Reading sensor data'' w"
  let ?D = "discoverDeviceProfile hw d 3 ?w0"
  have nu: "\<not> usable p c" using u by (auto simp add: usable_def)
  have r: "readSensorData hw d c w = (False, snd ?D)"
    by (rule readSensorData_unusable[OF d nu])
  have a: "onward discoveryEvent (Name d) w ?w0" by (rule onward_quiet) (simp_all add: slog_def)
  have b: "onward discoveryEvent (Name d) ?w0 (snd ?D)"
    by (rule discover_onward) (simp_all add: discoveryEvent_simps)
  note o = onward_trans[OF a b]
  have t: "\<exists>es. trace (snd (readSensorData hw d c w)) = trace w @ es \<and> list_all discoveryEvent es"
    using o unfolding r onward_def by simp
  have oth: "\<forall>n. n \<noteq> Name d \<longrightarrow> errorsPerDevice (snd (readSensorData hw d c w)) n = errorsPerDevice w n"
    using o unfolding r onward_def by simp
  have first: "trace (snd (readSensorData hw d c w)) = trace w @ [EvDiscoverProfile None]
          \<and> clock (snd (readSensorData hw d c w)) = Suc (clock w)
          \<and> errorCount (snd (readSensorData hw d c w)) (Name d) = 0"
    if "hwDiscoverProfile hw (clock w) = Inr p"
    unfolding r using that by (simp add: run_simps)
  have cyc: "fst (pollOperate hw d cf v) = (False, False, incr cf)"
    if "fst (connectToDevice hw d (acquired v))
        \<and> \<not> fst (fst (handleDeviceOperation hw d (snd (connectToDevice hw d (acquired v)))))"
    using that by (subst pollOperate_eq) simp
  from r t first oth cyc handleDeviceOperation_results[of hw d v] show ?thesis by simp
qed

theorem unusable_characteristic_fails_cycle_witness:
  "fst (fst (discoverDeviceProfile bareRadio kitchen 3 (slog LevelInfo ''Reading sensor data'' kitchenWorld)))
     = Some [triggerChar]
   \<and> Find [triggerChar] (characteristix 36) = None
   \<and> hwDiscoverProfile bareRadio (clock kitchenWorld) = Inr [triggerChar]
   \<and> fst (connectToDevice bareRadio kitchen (acquired kitchenWorld))
   \<and> \<not> fst (fst (handleDeviceOperation bareRadio kitchen
                    (snd (connectToDevice bareRadio kitchen (acquired kitchenWorld)))))
   \<and> fst (readSensorData bareRadio kitchen (characteristix 36) kitchenWorld) = False
   \<and> trace (snd (readSensorData bareRadio kitchen (characteristix 36) kitchenWorld))
       = trace kitchenWorld @ [EvDiscoverProfile None]
   \<and> errorCount (snd (readSensorData bareRadio kitchen (characteristix 36) kitchenWorld)) (Name kitchen) = 0
   \<and> fst (pollOperate bareRadio kitchen 0 kitchenWorld) = (False, False, incr 0)"
proof -
  have d: "fst (fst (discoverDeviceProfile bareRadio kitchen 3
                       (slog LevelInfo ''Reading sensor data'' kitchenWorld))) = Some [triggerChar]"
    by (simp add: run_simps example_simps bareRadio_def)
  have f: "Find [triggerChar] (characteristix 36) = None"
    by (simp add: Find_def triggerChar_def characteristix_def)
  have h: "hwDiscoverProfile bareRadio (clock kitchenWorld) = Inr [triggerChar]"
    by (simp add: bareRadio_def)
  have c: "fst (connectToDevice bareRadio kitchen (acquired kitchenWorld))"
    by (simp add: connected_iff bareRadio_def goodRadio_def)
  have n: "\<not> fst (fst (handleDeviceOperation bareRadio kitchen
                    (snd (connectToDevice bareRadio kitchen (acquired kitchenWorld)))))"
    by (simp add: acquired_def run_simps example_simps bareRadio_def)
  have u: "Find [triggerChar] (characteristix 36) = None
            \<or> (\<exists>ch. Find [triggerChar] (characteristix 36) = Some ch
                  \<and> ((Property ch AND CharNotify) = 0 \<or> CCCD ch = None))"
    using f by simp
  note t = unusable_characteristic_fails_cycle[OF d u, of kitchenWorld 0]
  from t have r: "fst (readSensorData bareRadio kitchen (characteristix 36) kitchenWorld) = False"
    by simp
  from t h have x: "trace (snd (readSensorData bareRadio kitchen (characteristix 36) kitchenWorld))
       = trace kitchenWorld @ [EvDiscoverProfile None]"
    "errorCount (snd (readSensorData bareRadio kitchen (characteristix 36) kitchenWorld)) (Name kitchen) = 0"
    by blast+
  from t c n have y: "fst (pollOperate bareRadio kitchen 0 kitchenWorld) = (False, False, incr 0)"
    by blast
  from d f h c n r x y show ?thesis by blast
qed

section \<open>The tally\<close>

lemma resetAllErrors_map:
  "errorsPerDevice (resetAllErrors ds w) =
     (\<lambda>n. if n \<in> Name ` set ds then Some 0 else errorsPerDevice w n)"
proof -
  have "errorsPerDevice (foldl (\<lambda>w' dev. slog LevelInfo ''Reset error counter during device reset''
                        (ResetErrors (Name dev) w')) w ds)
        = (\<lambda>n. if n \<in> Name ` set ds then Some 0 else errorsPerDevice w n)"
    by (induction ds arbitrary: w) (auto simp add: ResetErrors_def slog_def fun_eq_iff)
  then show ?thesis by (simp add: resetAllErrors_def)
qed

lemma resetAllErrors_frame:
  "deviceResetNeeded (resetAllErrors ds w) = deviceResetNeeded w"
  "clock (resetAllErrors ds w) = clock w"
  "bleDevice (resetAllErrors ds w) = bleDevice w"
  "trace (resetAllErrors ds w) = trace w"
  "globalConfig (resetAllErrors ds w) = globalConfig w"
  "measurementInterval (resetAllErrors ds w) = measurementInterval w"
  by (induction ds arbitrary: w; simp add: resetAllErrors_def ResetErrors_def slog_def)+

lemma stopExisting_frame:
  "deviceResetNeeded (stopExisting m w) = deviceResetNeeded w"
  "clock (stopExisting m w) = clock w"
  "errorsPerDevice (stopExisting m w) = errorsPerDevice w"
  "bleDevice (stopExisting m w) = None"
  "globalConfig (stopExisting m w) = globalConfig w"
  "measurementInterval (stopExisting m w) = measurementInterval w"
  by (simp_all add: stopExisting_def emit_def slog_def split: option.splits)

lemma resetBLEDevice_map:
  "errorsPerDevice (snd (resetBLEDevice hw w)) =
     (if hwLockWithin hw (clock w) then
        (case globalConfig w of
           Some cfg \<Rightarrow> (\<lambda>n. if n \<in> Name ` set (Devices cfg) then Some 0 else errorsPerDevice w n)
         | None \<Rightarrow> errorsPerDevice w)
      else errorsPerDevice w)"
  by (cases "hwNewDevice hw (Suc (clock w))"; cases "globalConfig w")
     (simp_all add: resetBLEDevice_def linuxNewDevice_def Let_def tick_def emit_def slog_def
        ClearBLEDeviceResetRequest_def stopExisting_frame resetAllErrors_frame resetAllErrors_map
        fun_eq_iff)

lemma resetBLEDevice_clock: "clock (snd (resetBLEDevice hw w)) = Suc (Suc (clock w))"
  by (cases "hwNewDevice hw (Suc (clock w))"; cases "globalConfig w")
     (simp_all add: resetBLEDevice_def linuxNewDevice_def Let_def tick_def emit_def slog_def
        ClearBLEDeviceResetRequest_def stopExisting_frame resetAllErrors_frame)

lemma resetBLEDevice_tally:
  "errorCount (snd (resetBLEDevice hw w)) n = 0
   \<or> errorCount (snd (resetBLEDevice hw w)) n = errorCount w n"
  by (simp add: errorCount_def resetBLEDevice_map split: option.splits)

section \<open>The reset of the radio\<close>

lemma stopExisting_trace:
  "trace (stopExisting m w) = trace w @ (case bleDevice w of None \<Rightarrow> [] | Some old \<Rightarrow> [EvStop old])"
  by (simp add: stopExisting_def emit_def slog_def split: option.splits)

lemma resetBLEDevice_fst: "fst (resetBLEDevice hw w) = errOf (hwNewDevice hw (Suc (clock w)))"
  by (cases "hwNewDevice hw (Suc (clock w))"; cases "globalConfig w")
     (simp_all add: resetBLEDevice_def linuxNewDevice_def Let_def tick_def emit_def slog_def
        errOf_def stopExisting_frame resetAllErrors_frame)

lemma resetBLEDevice_flag:
  "deviceResetNeeded (snd (resetBLEDevice hw w)) =
     (case hwNewDevice hw (Suc (clock w)) of Inr h \<Rightarrow> 0 | Inl e \<Rightarrow> deviceResetNeeded w)"
  by (cases "hwNewDevice hw (Suc (clock w))"; cases "globalConfig w")
     (simp_all add: resetBLEDevice_def linuxNewDevice_def Let_def tick_def emit_def slog_def
        ClearBLEDeviceResetRequest_def stopExisting_frame resetAllErrors_frame)

lemma resetBLEDevice_handle:
  "bleDevice (snd (resetBLEDevice hw w)) =
     (case hwNewDevice hw (Suc (clock w)) of Inr h \<Rightarrow> Some h | Inl e \<Rightarrow> None)"
  by (cases "hwNewDevice hw (Suc (clock w))"; cases "globalConfig w")
     (simp_all add: resetBLEDevice_def linuxNewDevice_def Let_def tick_def emit_def slog_def
        ClearBLEDeviceResetRequest_def stopExisting_frame resetAllErrors_frame)

lemma resetBLEDevice_trace:
  "trace (snd (resetBLEDevice hw w)) =
     trace w @ [EvResetLock, if hwLockWithin hw (clock w) then EvLock else EvLockTimeout]
       @ (case bleDevice w of None \<Rightarrow> [] | Some old \<Rightarrow> [EvStop old])
       @ [EvNewDevice (errOf (hwNewDevice hw (Suc (clock w))))]
       @ (if hwLockWithin hw (clock w) then [EvUnlock] else [])
       @ [EvResetUnlock]"
  by (cases "hwNewDevice hw (Suc (clock w))"; cases "globalConfig w")
     (simp_all add: resetBLEDevice_def linuxNewDevice_def Let_def tick_def emit_def slog_def
        ClearBLEDeviceResetRequest_def stopExisting_frame stopExisting_trace resetAllErrors_frame)

text \<open>
  Claim C2. \<^verbatim>\<open>resetBLEDevice\<close> calls \<^verbatim>\<open>linux.NewDevice\<close> once, in the branch
  \<^verbatim>\<open>done\<close> as in the branch \<^verbatim>\<open>timeout\<close>. When the call succeeds the function returns
  \<^verbatim>\<open>nil\<close>, stores the new handle and clears the reset request; when it fails the
  function returns the error, leaves the request as it was and the handle \<^verbatim>\<open>nil\<close>. So
  a request that was set is cleared if and only if the handle was built. When
  \<^verbatim>\<open>bleMutex\<close> is not obtained within 10 s, the old handle is stopped and the new one is
  built without the mutex.
\<close>

theorem resetBLEDevice_clears_flag_iff_built:
  "(case hwNewDevice hw (Suc (clock w)) of
      Inr h \<Rightarrow> fst (resetBLEDevice hw w) = None
               \<and> deviceResetNeeded (snd (resetBLEDevice hw w)) = 0
               \<and> bleDevice (snd (resetBLEDevice hw w)) = Some h
    | Inl e \<Rightarrow> fst (resetBLEDevice hw w) = Some e
               \<and> deviceResetNeeded (snd (resetBLEDevice hw w)) = deviceResetNeeded w
               \<and> bleDevice (snd (resetBLEDevice hw w)) = None)
   \<and> EvNewDevice (errOf (hwNewDevice hw (Suc (clock w)))) \<in> set (trace (snd (resetBLEDevice hw w)))
   \<and> (IsBLEDeviceResetRequested w \<longrightarrow>
        (\<not> IsBLEDeviceResetRequested (snd (resetBLEDevice hw w)))
          = (\<exists>h. hwNewDevice hw (Suc (clock w)) = Inr h))
   \<and> (\<not> hwLockWithin hw (clock w) \<longrightarrow>
        trace (snd (resetBLEDevice hw w)) =
          trace w @ [EvResetLock, EvLockTimeout]
            @ (case bleDevice w of None \<Rightarrow> [] | Some old \<Rightarrow> [EvStop old])
            @ [EvNewDevice (errOf (hwNewDevice hw (Suc (clock w)))), EvResetUnlock])"
  by (cases "hwNewDevice hw (Suc (clock w))")
     (simp_all add: resetBLEDevice_fst resetBLEDevice_flag resetBLEDevice_handle resetBLEDevice_trace
        IsBLEDeviceResetRequested_def errOf_def)

theorem resetBLEDevice_clears_flag_iff_built_witness:
  "IsBLEDeviceResetRequested troubledWorld
   \<and> \<not> hwLockWithin busyRadio (clock troubledWorld)
   \<and> fst (resetBLEDevice busyRadio troubledWorld) = None
   \<and> \<not> IsBLEDeviceResetRequested (snd (resetBLEDevice busyRadio troubledWorld))
   \<and> bleDevice (snd (resetBLEDevice busyRadio troubledWorld)) = Some 1
   \<and> trace (snd (resetBLEDevice busyRadio troubledWorld)) =
       [EvResetLock, EvLockTimeout, EvStop 0, EvNewDevice None, EvResetUnlock]"
proof -
  have a: "IsBLEDeviceResetRequested troubledWorld"
    by (simp add: IsBLEDeviceResetRequested_def troubledWorld_def)
  have b: "\<not> hwLockWithin busyRadio (clock troubledWorld)" by (simp add: busyRadio_def)
  have c: "hwNewDevice busyRadio (Suc (clock troubledWorld)) = Inr 1"
    by (simp add: busyRadio_def goodRadio_def)
  have d: "bleDevice troubledWorld = Some 0" "trace troubledWorld = []"
    by (simp_all add: troubledWorld_def example_simps)
  from resetBLEDevice_clears_flag_iff_built[of busyRadio troubledWorld] a b c d
  show ?thesis by (simp add: errOf_def)
qed

section \<open>The tally is never negative\<close>

lemma tallyInv_onward:
  assumes i: "tallyInv w" and o: "onward P name w w'" and c: "int (clock w') < 2 ^ 63"
  shows "tallyInv w'"
  unfolding tallyInv_def
proof (intro allI)
  fix n
  from o have le: "clock w \<le> clock w'" unfolding onward_def by simp
  from i have b: "0 \<le> errorCount w n" "errorCount w n \<le> int (clock w)"
    unfolding tallyInv_def by simp_all
  show "0 \<le> errorCount w' n \<and> errorCount w' n \<le> int (clock w')"
  proof (cases "n = name")
    case True
    from i have bn: "0 \<le> errorCount w name" "errorCount w name \<le> int (clock w)"
      unfolding tallyInv_def by simp_all
    have "errorCount w name + (int (clock w') - int (clock w)) < 2 ^ 63" using bn c by linarith
    with o bn have "0 \<le> errorCount w' name
        \<and> errorCount w' name - int (clock w') \<le> errorCount w name - int (clock w)"
      unfolding onward_def by blast
    then have "0 \<le> errorCount w' name \<and> errorCount w' name \<le> int (clock w')"
      using bn by linarith
    then show ?thesis unfolding True .
  next
    case False
    with o have "errorsPerDevice w' n = errorsPerDevice w n" unfolding onward_def by blast
    then have "errorCount w' n = errorCount w n" by (simp add: errorCount_def)
    then show ?thesis using b le by simp
  qed
qed

lemma tallyInv_reset:
  assumes i: "tallyInv w"
  shows "tallyInv (snd (resetBLEDevice hw w))"
  unfolding tallyInv_def
proof (intro allI)
  fix n
  from i have b: "0 \<le> errorCount w n" "errorCount w n \<le> int (clock w)"
    unfolding tallyInv_def by simp_all
  from resetBLEDevice_tally[of hw w n] b
  show "0 \<le> errorCount (snd (resetBLEDevice hw w)) n
      \<and> errorCount (snd (resetBLEDevice hw w)) n \<le> int (clock (snd (resetBLEDevice hw w)))"
    by (auto simp add: resetBLEDevice_clock)
qed

lemma tallyInv_quiet:
  "tallyInv w \<Longrightarrow> errorsPerDevice w' = errorsPerDevice w \<Longrightarrow> clock w \<le> clock w' \<Longrightarrow> tallyInv w'"
  unfolding tallyInv_def errorCount_def by (metis of_nat_le_iff order_trans)

lemma monitorStep_eq:
  "errorsPerDevice (monitorStep hw w) =
     (if IsBLEDeviceResetRequested w
      then errorsPerDevice (snd (resetBLEDevice hw
             (slog LevelInfo ''BLE device reset requested, attempting reset'' w)))
      else errorsPerDevice w)"
  "clock (monitorStep hw w) =
     (if IsBLEDeviceResetRequested w
      then clock (snd (resetBLEDevice hw
             (slog LevelInfo ''BLE device reset requested, attempting reset'' w)))
      else clock w)"
  by (simp_all add: monitorStep_def Let_def timeSleep_def emit_def slog_def split: prod.splits)

lemma monitorStep_clock: "clock w \<le> clock (monitorStep hw w)"
  by (simp add: monitorStep_eq resetBLEDevice_clock slog_def)

lemma tallyInv_monitor:
  assumes i: "tallyInv w"
  shows "tallyInv (monitorStep hw w)"
proof (cases "IsBLEDeviceResetRequested w")
  case True
  let ?w0 = "slog LevelInfo ''BLE device reset requested, attempting reset'' w"
  have "tallyInv ?w0" by (rule tallyInv_quiet[OF i]) (simp_all add: slog_def)
  then have "tallyInv (snd (resetBLEDevice hw ?w0))" by (rule tallyInv_reset)
  then show ?thesis
    by (rule tallyInv_quiet) (simp_all add: monitorStep_eq True)
next
  case False
  show ?thesis by (rule tallyInv_quiet[OF i]) (simp_all add: monitorStep_eq False)
qed

lemma tallyInv_start: "tallyInv (startWorld cfg interval h)"
  by (simp add: tallyInv_def errorCount_def startWorld_def)

lemma reachable_tally:
  "reachable hw cfg interval h w \<Longrightarrow> int (clock w) < 2 ^ 63 \<longrightarrow> tallyInv w"
proof (induction rule: reachable.induct)
  case start
  show ?case by (simp add: tallyInv_start)
next
  case (poll w d consecutiveFailures c)
  show ?case
  proof
    let ?w' = "snd (pollCycle hw d consecutiveFailures c w)"
    let ?v = "snd (pollCycle hw d consecutiveFailures Idle w)"
    assume "int (clock ?w') < 2 ^ 63"
    then have c: "int (clock ?v) < 2 ^ 63" by (simp add: pollCycle_proj)
    have o: "onward anyEvent (Name d) w ?v" by (rule pollCycle_onward)
    then have "clock w \<le> clock ?v" unfolding onward_def by simp
    with c have "int (clock w) < 2 ^ 63" by linarith
    with poll.IH have "tallyInv w" by simp
    from tallyInv_onward[OF this o c] have "tallyInv ?v" .
    then show "tallyInv ?w'"
      by (rule tallyInv_quiet) (simp_all add: pollCycle_proj)
  qed
next
  case (monitor w)
  show ?case
  proof
    assume c: "int (clock (monitorStep hw w)) < 2 ^ 63"
    have "int (clock w) < 2 ^ 63" using c monitorStep_clock[of w hw] by linarith
    with monitor.IH have "tallyInv w" by simp
    then show "tallyInv (monitorStep hw w)" by (rule tallyInv_monitor)
  qed
qed

lemma errorCount_IncrementErrors:
  "errorCount (snd (IncrementErrors name w)) n =
     (if n = name then incr (errorCount w name) else errorCount w n)"
  by (simp add: errorCount_def IncrementErrors_tally)

lemma errorCount_ResetErrors:
  "errorCount (ResetErrors name w) n = (if n = name then 0 else errorCount w n)"
  by (simp add: errorCount_def ResetErrors_def)

lemma applyOp_bound:
  assumes b: "\<forall>n. 0 \<le> errorCount w n \<and> errorCount w n \<le> B" and c: "B + 1 < 2 ^ 63"
  shows "\<forall>n. 0 \<le> errorCount (applyOp w x) n \<and> errorCount (applyOp w x) n \<le> B + 1"
proof (intro allI)
  fix n
  from b have bn: "0 \<le> errorCount w n" "errorCount w n \<le> B" by simp_all
  then have B0: "0 \<le> B" by linarith
  show "0 \<le> errorCount (applyOp w x) n \<and> errorCount (applyOp w x) n \<le> B + 1"
  proof (cases x)
    case (OpIncrement name)
    from b have bm: "0 \<le> errorCount w name" "errorCount w name \<le> B" by simp_all
    have "errorCount w name + 1 < 2 ^ 63" using bm c by linarith
    with bm have i: "incr (errorCount w name) = errorCount w name + 1" by (intro incr_exact)
    show ?thesis using bn bm by (simp add: OpIncrement errorCount_IncrementErrors i)
  next
    case (OpReset name)
    show ?thesis using bn B0 by (simp add: OpReset errorCount_ResetErrors)
  qed
qed

lemma runOps_bound:
  "(\<forall>n. 0 \<le> errorCount w n \<and> errorCount w n \<le> B) \<Longrightarrow> B + int (length ops) < 2 ^ 63 \<Longrightarrow>
   (\<forall>n. 0 \<le> errorCount (runOps ops w) n \<and> errorCount (runOps ops w) n \<le> B + int (length ops))"
proof (induction ops arbitrary: w B)
  case Nil
  then show ?case by (simp add: runOps_def)
next
  case (Cons x ops)
  have c: "B + 1 < 2 ^ 63" using Cons.prems(2) by simp
  have s: "\<forall>n. 0 \<le> errorCount (applyOp w x) n \<and> errorCount (applyOp w x) n \<le> B + 1"
    by (rule applyOp_bound[OF Cons.prems(1) c])
  have l: "B + 1 + int (length ops) < 2 ^ 63" using Cons.prems(2) by simp
  from Cons.IH[OF s l] show ?case by (simp add: runOps_def add.assoc add.commute)
qed

lemma discover_first_attempt:
  assumes m: "0 < m" and p: "hwDiscoverProfile hw (clock v) = Inr p"
  shows "fst (discoverDeviceProfile hw d m v) = (Some p, 0)"
    and "errorCount (snd (discoverDeviceProfile hw d m v)) (Name d) = 0"
  using m p
  by (simp_all add: discoverDeviceProfile_def performWithRetry_def pwr_unfold beforeAttempt_def
        clientDiscoverProfile_def Let_def ResetErrors_def errorCount_def slog_def emit_def tick_def)


text \<open>
  Claim C3, amended. The tally of every device is at least 0 in every world reached from
  the start by poll cycles and monitor iterations, as long as fewer than \<open>2 ^ 63\<close>
  library calls have been made, and after any sequence of fewer than \<open>2 ^ 63\<close>
  operations \<^verbatim>\<open>IncrementErrors\<close> and \<^verbatim>\<open>ResetErrors\<close> from the empty map. It is
  exactly 0 after \<^verbatim>\<open>ResetErrors\<close>, after a profile discovery whose first attempt
  succeeds, and, for every configured device, after a \<^verbatim>\<open>resetBLEDevice\<close> that got
  \<^verbatim>\<open>bleMutex\<close> within the 10 s.
\<close>

theorem tally_never_negative:
  "(reachable hw cfg interval h w \<and> int (clock w) < 2 ^ 63 \<longrightarrow> (\<forall>n. 0 \<le> errorCount w n))
   \<and> (int (length ops) < 2 ^ 63 \<longrightarrow>
        (\<forall>n. 0 \<le> errorCount (runOps ops (startWorld cfg interval h)) n))
   \<and> errorCount (ResetErrors n v) n = 0
   \<and> (0 < m \<and> hwDiscoverProfile hw (clock v) = Inr p \<longrightarrow>
        fst (discoverDeviceProfile hw d m v) = (Some p, 0)
        \<and> errorCount (snd (discoverDeviceProfile hw d m v)) (Name d) = 0)
   \<and> (hwLockWithin hw (clock u) \<and> globalConfig u = Some cfg' \<and> dev \<in> set (Devices cfg') \<longrightarrow>
        errorCount (snd (resetBLEDevice hw u)) (Name dev) = 0)"
proof -
  have one: "reachable hw cfg interval h w \<and> int (clock w) < 2 ^ 63 \<longrightarrow> (\<forall>n. 0 \<le> errorCount w n)"
    using reachable_tally[of hw cfg interval h w] by (simp add: tallyInv_def)
  have two: "int (length ops) < 2 ^ 63 \<longrightarrow>
        (\<forall>n. 0 \<le> errorCount (runOps ops (startWorld cfg interval h)) n)"
  proof
    assume l: "int (length ops) < 2 ^ 63"
    have z: "\<forall>n. 0 \<le> errorCount (startWorld cfg interval h) n
               \<and> errorCount (startWorld cfg interval h) n \<le> 0"
      by (simp add: errorCount_def startWorld_def)
    from runOps_bound[OF z] l
    show "\<forall>n. 0 \<le> errorCount (runOps ops (startWorld cfg interval h)) n" by simp
  qed
  have three: "errorCount (ResetErrors n v) n = 0" by (simp add: errorCount_ResetErrors)
  have four: "0 < m \<and> hwDiscoverProfile hw (clock v) = Inr p \<longrightarrow>
        fst (discoverDeviceProfile hw d m v) = (Some p, 0)
        \<and> errorCount (snd (discoverDeviceProfile hw d m v)) (Name d) = 0"
    using discover_first_attempt[of m hw v p d] by simp
  have five: "hwLockWithin hw (clock u) \<and> globalConfig u = Some cfg' \<and> dev \<in> set (Devices cfg') \<longrightarrow>
        errorCount (snd (resetBLEDevice hw u)) (Name dev) = 0"
    by (simp add: errorCount_def resetBLEDevice_map)
  from one two three four five show ?thesis by blast
qed

theorem tally_never_negative_witness:
  "reachable mutedRadio \<lparr>Devices = [kitchen]\<rparr> 60 0 (snd (pollCycle mutedRadio kitchen 0 Clears kitchenWorld))
   \<and> int (clock (snd (pollCycle mutedRadio kitchen 0 Clears kitchenWorld))) < 2 ^ 63
   \<and> 0 \<le> errorCount (snd (pollCycle mutedRadio kitchen 0 Clears kitchenWorld)) ''kitchen''
   \<and> 0 \<le> errorCount (runOps [OpIncrement ''kitchen'', OpReset ''hall'', OpIncrement ''kitchen'']
                        (startWorld \<lparr>Devices = [kitchen]\<rparr> 60 0)) ''kitchen''
   \<and> fst (discoverDeviceProfile goodRadio kitchen 3 troubledWorld) = (Some [sensorChar, triggerChar], 0)
   \<and> errorCount (snd (discoverDeviceProfile goodRadio kitchen 3 troubledWorld)) ''kitchen'' = 0
   \<and> errorCount (snd (resetBLEDevice goodRadio troubledWorld)) ''kitchen'' = 0"
proof -
  let ?W = "snd (pollCycle mutedRadio kitchen 0 Clears kitchenWorld)"
  let ?ops = "[OpIncrement ''kitchen'', OpReset ''hall'', OpIncrement ''kitchen'']"
  have r: "reachable mutedRadio \<lparr>Devices = [kitchen]\<rparr> 60 0 ?W"
    unfolding kitchenWorld_def by (rule reachable.poll[OF reachable.start]) simp
  have c: "int (clock ?W) < 2 ^ 63"
    by (simp add: run_simps example_simps mutedRadio_def)
  have l: "int (length ?ops) < 2 ^ 63" by simp
  have p: "0 < (3::int) \<and> hwDiscoverProfile goodRadio (clock troubledWorld) = Inr [sensorChar, triggerChar]"
    by (simp add: goodRadio_def)
  have k: "hwLockWithin goodRadio (clock troubledWorld)
      \<and> globalConfig troubledWorld = Some \<lparr>Devices = [kitchen]\<rparr>
      \<and> kitchen \<in> set (Devices \<lparr>Devices = [kitchen]\<rparr>)"
    by (simp add: goodRadio_def troubledWorld_def kitchenWorld_def startWorld_def)
  have n: "Name kitchen = ''kitchen''" by (simp add: kitchen_def)
  note t = tally_never_negative[where hw = mutedRadio and cfg = "\<lparr>Devices = [kitchen]\<rparr>"
      and interval = 60 and h = 0 and w = ?W and ops = ?ops]
  note t' = tally_never_negative[where hw = goodRadio and m = 3 and v = troubledWorld
      and p = "[sensorChar, triggerChar]" and d = kitchen and u = troubledWorld
      and cfg' = "\<lparr>Devices = [kitchen]\<rparr>" and dev = kitchen]
  from t r c l have a: "0 \<le> errorCount ?W ''kitchen''"
    "0 \<le> errorCount (runOps ?ops (startWorld \<lparr>Devices = [kitchen]\<rparr> 60 0)) ''kitchen''"
    by blast+
  from t' p k n have b:
    "fst (discoverDeviceProfile goodRadio kitchen 3 troubledWorld) = (Some [sensorChar, triggerChar], 0)"
    "errorCount (snd (discoverDeviceProfile goodRadio kitchen 3 troubledWorld)) ''kitchen'' = 0"
    "errorCount (snd (resetBLEDevice goodRadio troubledWorld)) ''kitchen'' = 0"
    by simp_all
  from r c a b show ?thesis by blast
qed

text \<open>
  Claim C3 as stated fails. A profile discovery that succeeds on its second attempt leaves
  the tally at 1; a subscription that succeeds at once leaves the tally where it was; a
  \<^verbatim>\<open>resetBLEDevice\<close> that timed out on \<^verbatim>\<open>bleMutex\<close> returns \<^verbatim>\<open>nil\<close> and clears the
  request with the tally still at 3; and the increment of a tally of \<open>2 ^ 63 - 1\<close> is
  negative.
\<close>

theorem tally_kept_after_success_and_reset:
  "fst (discoverDeviceProfile flakyRadio kitchen 3 kitchenWorld) = (Some [sensorChar, triggerChar], 1)
   \<and> errorCount (snd (discoverDeviceProfile flakyRadio kitchen 3 kitchenWorld)) ''kitchen'' = 1
   \<and> fst (subscribeToCharacteristic goodRadio kitchen sensorChar 3 troubledWorld) = (True, 0)
   \<and> errorCount (snd (subscribeToCharacteristic goodRadio kitchen sensorChar 3 troubledWorld))
        ''kitchen'' = 3
   \<and> fst (resetBLEDevice busyRadio troubledWorld) = None
   \<and> \<not> IsBLEDeviceResetRequested (snd (resetBLEDevice busyRadio troubledWorld))
   \<and> errorCount (snd (resetBLEDevice busyRadio troubledWorld)) ''kitchen'' = 3
   \<and> errorCount (snd (IncrementErrors ''kitchen''
        (kitchenWorld\<lparr>errorsPerDevice := [''kitchen'' \<mapsto> 2 ^ 63 - 1]\<rparr>))) ''kitchen'' = - (2 ^ 63)"
proof -
  note ev = performWithRetry_def pwr_unfold pwr_done beforeAttempt_def nextBackoff_def
    afterFailure_def Let_def trackError_eq IncrementErrors_simps errorCount_def tick_def emit_def
    slog_def timeSleep_def incr_small kitchen_def kitchenWorld_def startWorld_def
    troubledWorld_def goodRadio_def
  have a: "fst (discoverDeviceProfile flakyRadio kitchen 3 kitchenWorld) = (Some [sensorChar, triggerChar], 1)"
    "errorCount (snd (discoverDeviceProfile flakyRadio kitchen 3 kitchenWorld)) ''kitchen'' = 1"
    by (simp_all add: discoverDeviceProfile_def clientDiscoverProfile_def flakyRadio_def
          ResetErrors_def ev)
  have b: "fst (subscribeToCharacteristic goodRadio kitchen sensorChar 3 troubledWorld) = (True, 0)"
    "errorCount (snd (subscribeToCharacteristic goodRadio kitchen sensorChar 3 troubledWorld))
        ''kitchen'' = 3"
    by (simp_all add: subscribeToCharacteristic_def clientSubscribe_def ev)
  have c: "fst (resetBLEDevice busyRadio troubledWorld) = None"
    "\<not> IsBLEDeviceResetRequested (snd (resetBLEDevice busyRadio troubledWorld))"
    "errorCount (snd (resetBLEDevice busyRadio troubledWorld)) ''kitchen'' = 3"
    by (simp_all add: resetBLEDevice_def linuxNewDevice_def stopExisting_def busyRadio_def
          IsBLEDeviceResetRequested_def ClearBLEDeviceResetRequest_def ev)
  have d: "errorCount (snd (IncrementErrors ''kitchen''
        (kitchenWorld\<lparr>errorsPerDevice := [''kitchen'' \<mapsto> 2 ^ 63 - 1]\<rparr>))) ''kitchen'' = - (2 ^ 63)"
    by (simp add: IncrementErrors_tally errorCount_def incr_def wrap64_def
          signed_take_bit_eq_take_bit_minus)
  from a b c d show ?thesis by blast
qed

section \<open>Requesting a reset\<close>

text \<open>
  Claim C4. Three failed subscriptions in a row, from a tally of 0, bring the tally of the
  device to 3 and call \<^verbatim>\<open>RequestBLEDeviceReset\<close> once; the tallies of the other devices
  are untouched. Requesting twice leaves the variables as requesting once does (only the
  log has one more line), and a request leaves every tally as it is. Whenever
  \<^verbatim>\<open>IncrementErrors\<close> returns 3 or more the request is set, and no other tally changes.
\<close>

theorem reset_flag_raised_once:
  assumes t0: "errorCount w (Name d) = 0"
    and f0: "hwSubscribe hw (clock w) = Some e0"
    and f1: "hwSubscribe hw (Suc (clock w)) = Some e1"
    and f2: "hwSubscribe hw (Suc (Suc (clock w))) = Some e2"
  shows "fst (subscribeToCharacteristic hw d c 3 w) = (False, 3)
     \<and> errorCount (snd (subscribeToCharacteristic hw d c 3 w)) (Name d) = 3
     \<and> IsBLEDeviceResetRequested (snd (subscribeToCharacteristic hw d c 3 w))
     \<and> requests (snd (subscribeToCharacteristic hw d c 3 w)) = Suc (requests w)
     \<and> (\<forall>n. n \<noteq> Name d \<longrightarrow>
           errorsPerDevice (snd (subscribeToCharacteristic hw d c 3 w)) n = errorsPerDevice w n)
     \<and> (RequestBLEDeviceReset (RequestBLEDeviceReset v))\<lparr>logs := []\<rparr>
          = (RequestBLEDeviceReset v)\<lparr>logs := []\<rparr>
     \<and> IsBLEDeviceResetRequested (RequestBLEDeviceReset v)
     \<and> errorsPerDevice (RequestBLEDeviceReset v) = errorsPerDevice v
     \<and> (3 \<le> fst (IncrementErrors n v) \<longrightarrow> IsBLEDeviceResetRequested (snd (IncrementErrors n v)))
     \<and> (\<forall>n'. n' \<noteq> n \<longrightarrow> errorsPerDevice (snd (IncrementErrors n v)) n' = errorsPerDevice v n')"
proof -
  let ?S = "subscribeToCharacteristic hw d c 3 w"
  have t0': "errorsPerDevice w (Name d) = None \<or> errorsPerDevice w (Name d) = Some 0"
    using t0 by (auto simp add: errorCount_def split: option.splits)
  note ev = subscribeToCharacteristic_def performWithRetry_def pwr_unfold pwr_done
        beforeAttempt_def nextBackoff_def afterFailure_def Let_def
        clientSubscribe_def trackError_eq IncrementErrors_simps errorCount_def
        tick_def emit_def slog_def timeSleep_def requests_def incr_small
  have a: "fst ?S = (False, 3)"
    using t0 f0 f1 f2 by (simp add: ev)
  have b: "errorsPerDevice (snd ?S) = (errorsPerDevice w)(Name d \<mapsto> 3)"
    using t0 f0 f1 f2 by (simp add: ev)
  have c: "deviceResetNeeded (snd ?S) = 1"
    using t0 f0 f1 f2 by (simp add: ev)
  have r: "requests (snd ?S) = Suc (requests w)"
    using t0 f0 f1 f2 by (simp add: ev)
  have i: "(RequestBLEDeviceReset (RequestBLEDeviceReset v))\<lparr>logs := []\<rparr>
          = (RequestBLEDeviceReset v)\<lparr>logs := []\<rparr>"
    by (simp add: RequestBLEDeviceReset_def slog_def)
  have j: "IsBLEDeviceResetRequested (RequestBLEDeviceReset v)"
    "errorsPerDevice (RequestBLEDeviceReset v) = errorsPerDevice v"
    by (simp_all add: RequestBLEDeviceReset_def IsBLEDeviceResetRequested_def slog_def)
  have k: "3 \<le> fst (IncrementErrors n v) \<longrightarrow> IsBLEDeviceResetRequested (snd (IncrementErrors n v))"
    by (simp add: IncrementErrors_simps IsBLEDeviceResetRequested_def)
  have l: "\<forall>n'. n' \<noteq> n \<longrightarrow> errorsPerDevice (snd (IncrementErrors n v)) n' = errorsPerDevice v n'"
    by (simp add: IncrementErrors_simps)
  from a b c r i j k l show ?thesis
    by (simp add: errorCount_def IsBLEDeviceResetRequested_def)
qed

theorem reset_flag_raised_once_witness:
  "errorCount kitchenWorld (Name kitchen) = 0
   \<and> hwSubscribe mutedRadio (clock kitchenWorld) = Some ''refused''
   \<and> hwSubscribe mutedRadio (Suc (clock kitchenWorld)) = Some ''refused''
   \<and> hwSubscribe mutedRadio (Suc (Suc (clock kitchenWorld))) = Some ''refused''
   \<and> fst (IncrementErrors ''kitchen'' (troubledWorld\<lparr>deviceResetNeeded := 0\<rparr>)) = 4
   \<and> IsBLEDeviceResetRequested (snd (IncrementErrors ''kitchen'' (troubledWorld\<lparr>deviceResetNeeded := 0\<rparr>)))
   \<and> fst (subscribeToCharacteristic mutedRadio kitchen sensorChar 3 kitchenWorld) = (False, 3)
   \<and> IsBLEDeviceResetRequested (snd (subscribeToCharacteristic mutedRadio kitchen sensorChar 3 kitchenWorld))
   \<and> requests (snd (subscribeToCharacteristic mutedRadio kitchen sensorChar 3 kitchenWorld)) = 1
   \<and> errorsPerDevice (snd (subscribeToCharacteristic mutedRadio kitchen sensorChar 3 kitchenWorld)) ''hall''
       = errorsPerDevice kitchenWorld ''hall''"
proof -
  have a: "errorCount kitchenWorld (Name kitchen) = 0"
    by (simp add: errorCount_def example_simps)
  have b: "hwSubscribe mutedRadio (clock kitchenWorld) = Some ''refused''"
    "hwSubscribe mutedRadio (Suc (clock kitchenWorld)) = Some ''refused''"
    "hwSubscribe mutedRadio (Suc (Suc (clock kitchenWorld))) = Some ''refused''"
    by (simp_all add: mutedRadio_def)
  have c: "fst (IncrementErrors ''kitchen'' (troubledWorld\<lparr>deviceResetNeeded := 0\<rparr>)) = 4"
    by (simp add: IncrementErrors_simps errorCount_def troubledWorld_def incr_small)
  have r0: "requests kitchenWorld = 0" by (simp add: requests_def example_simps)
  have n: "''hall'' \<noteq> Name kitchen" by (simp add: kitchen_def)
  note t = reset_flag_raised_once[OF a b, where c = sensorChar
      and v = "troubledWorld\<lparr>deviceResetNeeded := 0\<rparr>" and n = "''kitchen''"]
  from t c have d: "IsBLEDeviceResetRequested (snd (IncrementErrors ''kitchen'' (troubledWorld\<lparr>deviceResetNeeded := 0\<rparr>)))"
    by simp
  from t n have e: "errorsPerDevice (snd (subscribeToCharacteristic mutedRadio kitchen sensorChar 3 kitchenWorld)) ''hall''
       = errorsPerDevice kitchenWorld ''hall''" by blast
  from t r0 have f: "requests (snd (subscribeToCharacteristic mutedRadio kitchen sensorChar 3 kitchenWorld)) = 1"
    by simp
  from t a b c d e f show ?thesis by blast
qed

end
